theory Spec2Isabelle
  imports Main "HOL-Library.Sublist"
begin

section \<open>Errors\<close>

text \<open>
  The exceptions the contact accessor can raise: the \<open>HTTPException\<close> of the routes and
  of \<open>app/crud/contact.py\<close> (status code and detail), and the two exceptions of Python's
  \<open>datetime.date\<close> arithmetic.
\<close>

datatype error = HTTPException nat string | ValueError | OverflowError

definition HTTP_401_UNAUTHORIZED :: nat where
  "HTTP_401_UNAUTHORIZED = 401"

section \<open>Calendar dates\<close>

text \<open>
  Python's \<open>datetime.date\<close>: a year in \<open>MINYEAR..MAXYEAR\<close>, a month and a day that
  exists in that month. Every \<open>date\<close> object of the program is valid; the record can hold
  other values, so validity is a predicate.
\<close>

record date =
  year :: nat
  month :: nat
  day :: nat

definition MINYEAR :: nat where
  "MINYEAR = 1"

definition MAXYEAR :: nat where
  "MAXYEAR = 9999"

definition is_leap :: "nat \<Rightarrow> bool" where
  "is_leap y = (y mod 4 = 0 \<and> (y mod 100 \<noteq> 0 \<or> y mod 400 = 0))"

definition days_in_month :: "nat \<Rightarrow> nat \<Rightarrow> nat" where
  "days_in_month y m =
     (if m = 2 then (if is_leap y then 29 else 28)
      else if m = 4 \<or> m = 6 \<or> m = 9 \<or> m = 11 then 30 else 31)"

definition valid_date :: "date \<Rightarrow> bool" where
  "valid_date d =
     (MINYEAR \<le> year d \<and> year d \<le> MAXYEAR \<and> 1 \<le> month d \<and> month d \<le> 12 \<and>
      1 \<le> day d \<and> day d \<le> days_in_month (year d) (month d))"

text \<open>\<open>d.replace(year=y)\<close>: raises \<open>ValueError\<close> when the year is out of range or the
  day does not exist in that year (29 February of a common year).\<close>

definition date_replace_year :: "date \<Rightarrow> nat \<Rightarrow> error + date" where
  "date_replace_year d y =
     (if y < MINYEAR \<or> MAXYEAR < y \<or> day d < 1 \<or> days_in_month y (month d) < day d
      then Inl ValueError
      else Inr (d\<lparr>year := y\<rparr>))"

text \<open>The order of dates: by year, then month, then day.\<close>

definition date_less :: "date \<Rightarrow> date \<Rightarrow> bool" where
  "date_less a b =
     (year a < year b \<or> (year a = year b \<and>
        (month a < month b \<or> (month a = month b \<and> day a < day b))))"

definition date_le :: "date \<Rightarrow> date \<Rightarrow> bool" where
  "date_le a b = (date_less a b \<or> (year a = year b \<and> month a = month b \<and> day a = day b))"

text \<open>\<open>d + timedelta(days=n)\<close> for \<open>n \<ge> 0\<close>: the calendar day \<open>n\<close> days later;
  \<open>OverflowError\<close> beyond 31 December of \<open>MAXYEAR\<close>.\<close>

definition next_day :: "date \<Rightarrow> date" where
  "next_day d =
     (if day d < days_in_month (year d) (month d) then d\<lparr>day := day d + 1\<rparr>
      else if month d < 12 then d\<lparr>month := month d + 1, day := 1\<rparr>
      else d\<lparr>year := year d + 1, month := 1, day := 1\<rparr>)"

fun later :: "nat \<Rightarrow> date \<Rightarrow> date" where
  "later 0 d = d"
| "later (Suc n) d = later n (next_day d)"

definition date_add_days :: "date \<Rightarrow> nat \<Rightarrow> error + date" where
  "date_add_days d n =
     (let r = later n d in if MAXYEAR < year r then Inl OverflowError else Inr r)"

section \<open>Data model\<close>

text \<open>
  Modelled from the spec: the ORM class \<open>Contact\<close> of \<open>app/models/contact.py\<close>, which is
  not among the sources. Its columns are the attributes the spec gives a Contact (first
  name, last name, email, phone, birthday, free-text note, owning user reference) under the
  names of \<open>ContactOut\<close> in \<open>app/schemas/contact.py\<close>, with the generated primary key.
  The primary key \<open>Contact.id\<close> is the field \<open>ident\<close>.
\<close>

record contact =
  ident :: int
  first_name :: string
  last_name :: string
  email :: string
  phone :: string
  birthday :: date
  extra :: "string option"
  user_id :: "int option"

text \<open>\<open>ContactCreate\<close>: the validated fields of a request, as \<open>model_dump()\<close> returns
  them. The caller may supply \<open>user_id\<close>.\<close>

record contact_create =
  new_first_name :: string
  new_last_name :: string
  new_email :: string
  new_phone :: string
  new_birthday :: date
  new_extra :: "string option"
  new_user_id :: "int option"

text \<open>
  \<open>ContactUpdate\<close> as \<open>model_dump(exclude_unset=True)\<close> sees it: for each field,
  \<open>None\<close> when the field was not set and \<open>Some v\<close> when it was set to \<open>v\<close>. The schema
  inherits the five required fields of \<open>ContactBase\<close>, so an object built by validation has
  them set; \<open>update_contact\<close> itself applies whatever set of fields it is given.
\<close>

record contact_update =
  set_first_name :: "string option"
  set_last_name :: "string option"
  set_email :: "string option"
  set_phone :: "string option"
  set_birthday :: "date option"
  set_extra :: "string option option"
  set_user_id :: "int option option"

definition validated_update :: "contact_update \<Rightarrow> bool" where
  "validated_update u =
     (set_first_name u \<noteq> None \<and> set_last_name u \<noteq> None \<and> set_email u \<noteq> None \<and>
      set_phone u \<noteq> None \<and> set_birthday u \<noteq> None)"

text \<open>
  Modelled from the spec: the relational store behind the \<open>Session\<close> of
  \<open>app/database.py\<close>, which is not among the sources. It holds the rows of the contacts
  table in the order of their insertion, autogenerates primary keys from a counter, and
  addresses a row to update or delete by its primary key.
\<close>

record session =
  contacts :: "contact list"
  next_id :: int

definition store_ok :: "session \<Rightarrow> bool" where
  "store_ok db =
     (distinct (map ident (contacts db)) \<and> list_all (\<lambda>c. ident c < next_id db) (contacts db))"

text \<open>
  Generated ids grow with insertion, so a table in insertion order has strictly ascending
  ids, all below the counter.
\<close>

definition insertion_ordered :: "session \<Rightarrow> bool" where
  "insertion_ordered db =
     (sorted_wrt (<) (map ident (contacts db)) \<and> list_all (\<lambda>c. ident c < next_id db) (contacts db))"

section \<open>Access control gate\<close>

text \<open>
  The claims of a decoded token are a dictionary. \<open>create_access_token\<close> writes the
  integer \<open>user_id\<close>, the \<open>email\<close> and the expiry \<open>exp\<close>.
\<close>

datatype claim = IntClaim int | StrClaim string

type_synonym payload = "(string \<times> claim) list"

datatype jwt_error = JWTError

text \<open>\<open>jose.jwt.decode\<close> with the configured key and algorithm is a parameter \<open>jwt\<close>
  of the model: it returns the claims, or raises \<open>JWTError\<close> for a malformed, expired or
  wrongly signed token. \<open>decode_access_token\<close> turns the exception into \<open>None\<close>.\<close>

definition decode_access_token :: "(string \<Rightarrow> jwt_error + payload) \<Rightarrow> string \<Rightarrow> payload option" where
  "decode_access_token jwt token =
     (case jwt token of Inr payload \<Rightarrow> Some payload | Inl JWTError \<Rightarrow> None)"

text \<open>\<open>payload.get("user_id")\<close>: the integer the token carries, \<open>None\<close> when the key is
  absent. The program issues no token whose \<open>user_id\<close> is not an integer; the model reads
  such a claim as absent.\<close>

definition get_user_id :: "payload \<Rightarrow> int option" where
  "get_user_id d = (case map_of d ''user_id'' of Some (IntClaim n) \<Rightarrow> Some n | _ \<Rightarrow> None)"

definition invalid_token :: error where
  "invalid_token = HTTPException HTTP_401_UNAUTHORIZED ''Invalid token''"

text \<open>
  The first four lines of every accessor function:
  \<^verbatim>\<open>
    payload = decode_access_token(token)
    if not payload:
        raise HTTPException(status_code=status.HTTP_401_UNAUTHORIZED, detail="Invalid token")
    user_id = payload.get("user_id")
  \<close>
  \<open>not payload\<close> holds for \<open>None\<close> and for the empty dictionary.
\<close>

definition authenticate :: "(string \<Rightarrow> jwt_error + payload) \<Rightarrow> string \<Rightarrow> error + int option" where
  "authenticate jwt token =
     (case decode_access_token jwt token of
        None \<Rightarrow> Inl invalid_token
      | Some payload \<Rightarrow> if payload = [] then Inl invalid_token else Inr (get_user_id payload))"

text \<open>Lower case of ASCII letters; characters are bytes.\<close>

definition lower_char :: "char \<Rightarrow> char" where
  "lower_char c =
     (case map_of (zip ''ABCDEFGHIJKLMNOPQRSTUVWXYZ'' ''abcdefghijklmnopqrstuvwxyz'') c of
        None \<Rightarrow> c
      | Some l \<Rightarrow> l)"

definition lower :: "string \<Rightarrow> string" where
  "lower s = map lower_char s"

text \<open>
  \<open>oauth2_scheme = OAuth2PasswordBearer(tokenUrl="/users/login")\<close>, the dependency that
  hands every route its \<open>token\<close>: FastAPI reads the \<open>Authorization\<close> header, splits it
  at the first space into scheme and parameter, and raises 401 when the header is missing or
  empty or the scheme is not \<open>bearer\<close>.
\<close>

definition not_authenticated :: error where
  "not_authenticated = HTTPException HTTP_401_UNAUTHORIZED ''Not authenticated''"

definition oauth2_scheme :: "string option \<Rightarrow> error + string" where
  "oauth2_scheme authorization =
     (case authorization of
        None \<Rightarrow> Inl not_authenticated
      | Some h \<Rightarrow>
          if h = [] \<or> lower (takeWhile (\<lambda>c. c \<noteq> CHR '' '') h) \<noteq> ''bearer''
          then Inl not_authenticated
          else Inr (tl (dropWhile (\<lambda>c. c \<noteq> CHR '' '') h)))"

definition is_unauthenticated :: "error \<Rightarrow> bool" where
  "is_unauthenticated e = (case e of HTTPException code detail \<Rightarrow> code = 401 | _ \<Rightarrow> False)"

section \<open>Pattern matching of the store\<close>

text \<open>
  \<open>column.ilike(pattern)\<close>: SQL \<open>LIKE\<close> on the lower-cased operands, with no escape
  character. In the pattern \<open>%\<close> stands for any sequence of characters and \<open>_\<close> for any
  single character. Characters are bytes and case folding is that of ASCII letters.
\<close>

fun like :: "string \<Rightarrow> string \<Rightarrow> bool" where
  "like [] [] = True"
| "like (c # cs) [] = False"
| "like [] (p # ps) = (p = CHR ''%'' \<and> like [] ps)"
| "like (c # cs) (p # ps) =
     (if p = CHR ''%'' then like (c # cs) ps \<or> like cs (p # ps)
      else (p = CHR ''_'' \<or> p = c) \<and> like cs ps)"

definition ilike :: "string \<Rightarrow> string \<Rightarrow> bool" where
  "ilike column pattern = like (lower column) (lower pattern)"

text \<open>
  \<open>.offset(skip).limit(limit)\<close>: for counts that are not negative, the rows after the
  first \<open>skip\<close>, at most \<open>limit\<close> of them. What the store does with a negative count is
  not in the sources and is the parameter \<open>engine\<close>.
\<close>

definition offset_limit ::
  "(int \<Rightarrow> int \<Rightarrow> contact list \<Rightarrow> error + contact list) \<Rightarrow> int \<Rightarrow> int \<Rightarrow> contact list
     \<Rightarrow> error + contact list" where
  "offset_limit engine skip limit rows =
     (if 0 \<le> skip \<and> 0 \<le> limit then Inr (take (nat limit) (drop (nat skip) rows))
      else engine skip limit rows)"

section \<open>Contact store accessor (app/crud/contact.py)\<close>

text \<open>The predicate of \<open>filter(Contact.id == contact_id, Contact.user_id == user_id)\<close>.
  A \<open>user_id\<close> of \<open>None\<close> is compared by \<open>IS NULL\<close>.\<close>

definition owned_row :: "int \<Rightarrow> int option \<Rightarrow> contact \<Rightarrow> bool" where
  "owned_row cid uid c = (ident c = cid \<and> user_id c = uid)"

definition create_contact ::
  "(string \<Rightarrow> jwt_error + payload) \<Rightarrow> session \<Rightarrow> contact_create \<Rightarrow> string
     \<Rightarrow> (error + contact) \<times> session" where
  "create_contact jwt db contact token =
     (case authenticate jwt token of
        Inl e \<Rightarrow> (Inl e, db)
      | Inr uid \<Rightarrow>
          (let db_contact =
                 \<lparr>ident = next_id db,
                  first_name = new_first_name contact,
                  last_name = new_last_name contact,
                  email = new_email contact,
                  phone = new_phone contact,
                  birthday = new_birthday contact,
                  extra = new_extra contact,
                  user_id = uid\<rparr>
           in (Inr db_contact,
               db\<lparr>contacts := contacts db @ [db_contact], next_id := next_id db + 1\<rparr>)))"

definition get_contacts ::
  "(string \<Rightarrow> jwt_error + payload) \<Rightarrow> (int \<Rightarrow> int \<Rightarrow> contact list \<Rightarrow> error + contact list)
     \<Rightarrow> session \<Rightarrow> int \<Rightarrow> int \<Rightarrow> string \<Rightarrow> error + contact list" where
  "get_contacts jwt engine db skip limit token =
     (case authenticate jwt token of
        Inl e \<Rightarrow> Inl e
      | Inr uid \<Rightarrow> offset_limit engine skip limit (filter (\<lambda>c. user_id c = uid) (contacts db)))"

definition get_contact ::
  "(string \<Rightarrow> jwt_error + payload) \<Rightarrow> session \<Rightarrow> int \<Rightarrow> string \<Rightarrow> error + contact option" where
  "get_contact jwt db cid token =
     (case authenticate jwt token of
        Inl e \<Rightarrow> Inl e
      | Inr uid \<Rightarrow> Inr (find (owned_row cid uid) (contacts db)))"

text \<open>The loop \<open>for key, value in contact.model_dump(exclude_unset=True).items():
  setattr(db_contact, key, value)\<close>: every field that was set is assigned.\<close>

definition set_fields :: "contact_update \<Rightarrow> contact \<Rightarrow> contact" where
  "set_fields u c =
     c\<lparr>first_name := (case set_first_name u of None \<Rightarrow> first_name c | Some v \<Rightarrow> v),
       last_name := (case set_last_name u of None \<Rightarrow> last_name c | Some v \<Rightarrow> v),
       email := (case set_email u of None \<Rightarrow> email c | Some v \<Rightarrow> v),
       phone := (case set_phone u of None \<Rightarrow> phone c | Some v \<Rightarrow> v),
       birthday := (case set_birthday u of None \<Rightarrow> birthday c | Some v \<Rightarrow> v),
       extra := (case set_extra u of None \<Rightarrow> extra c | Some v \<Rightarrow> v),
       user_id := (case set_user_id u of None \<Rightarrow> user_id c | Some v \<Rightarrow> v)\<rparr>"

definition update_contact ::
  "(string \<Rightarrow> jwt_error + payload) \<Rightarrow> session \<Rightarrow> int \<Rightarrow> contact_update \<Rightarrow> string
     \<Rightarrow> (error + contact option) \<times> session" where
  "update_contact jwt db cid contact token =
     (case authenticate jwt token of
        Inl e \<Rightarrow> (Inl e, db)
      | Inr uid \<Rightarrow>
          (case find (owned_row cid uid) (contacts db) of
             Some db_contact \<Rightarrow>
               (let updated = set_fields contact db_contact
                in (Inr (Some updated),
                    db\<lparr>contacts :=
                         map (\<lambda>r. if ident r = ident db_contact then updated else r) (contacts db)\<rparr>))
           | None \<Rightarrow> (Inr None, db)))"

definition delete_contact ::
  "(string \<Rightarrow> jwt_error + payload) \<Rightarrow> session \<Rightarrow> int \<Rightarrow> string \<Rightarrow> (error + bool) \<times> session" where
  "delete_contact jwt db cid token =
     (case authenticate jwt token of
        Inl e \<Rightarrow> (Inl e, db)
      | Inr uid \<Rightarrow>
          (case find (owned_row cid uid) (contacts db) of
             Some db_contact \<Rightarrow>
               (Inr True,
                db\<lparr>contacts := filter (\<lambda>r. ident r \<noteq> ident db_contact) (contacts db)\<rparr>)
           | None \<Rightarrow> (Inr False, db)))"

definition search_row :: "string \<Rightarrow> int option \<Rightarrow> contact \<Rightarrow> bool" where
  "search_row query uid c =
     (user_id c = uid \<and>
      (ilike (first_name c) (''%'' @ query @ ''%'') \<or>
       ilike (last_name c) (''%'' @ query @ ''%'') \<or>
       ilike (email c) (''%'' @ query @ ''%'')))"

definition search_contacts ::
  "(string \<Rightarrow> jwt_error + payload) \<Rightarrow> session \<Rightarrow> string \<Rightarrow> string \<Rightarrow> error + contact list" where
  "search_contacts jwt db query token =
     (case authenticate jwt token of
        Inl e \<Rightarrow> Inl e
      | Inr uid \<Rightarrow> Inr (filter (search_row query uid) (contacts db)))"

text \<open>The loop of \<open>get_upcoming_birthdays\<close> over the owned contacts, with the list
  \<open>upcoming\<close> it appends to. A \<open>replace\<close> that raises ends the whole call.\<close>

fun birthdays_loop :: "date \<Rightarrow> date \<Rightarrow> contact list \<Rightarrow> contact list \<Rightarrow> error + contact list" where
  "birthdays_loop today next_week [] upcoming = Inr upcoming"
| "birthdays_loop today next_week (c # cs) upcoming =
     (case date_replace_year (birthday c) (year today) of
        Inl e \<Rightarrow> Inl e
      | Inr bday_this_year \<Rightarrow>
          (case (if date_less bday_this_year today
                 then date_replace_year (birthday c) (year today + 1)
                 else Inr bday_this_year) of
             Inl e \<Rightarrow> Inl e
           | Inr bday \<Rightarrow>
               birthdays_loop today next_week cs
                 (if date_le today bday \<and> date_le bday next_week then upcoming @ [c]
                  else upcoming)))"

text \<open>\<open>date.today()\<close> is the parameter \<open>today\<close>.\<close>

definition get_upcoming_birthdays ::
  "(string \<Rightarrow> jwt_error + payload) \<Rightarrow> date \<Rightarrow> session \<Rightarrow> string \<Rightarrow> error + contact list" where
  "get_upcoming_birthdays jwt today db token =
     (case authenticate jwt token of
        Inl e \<Rightarrow> Inl e
      | Inr uid \<Rightarrow>
          (case date_add_days today 7 of
             Inl e \<Rightarrow> Inl e
           | Inr next_week \<Rightarrow>
               birthdays_loop today next_week (filter (\<lambda>c. user_id c = uid) (contacts db)) []))"

section \<open>Routes (app/routers/contact.py)\<close>

text \<open>Each route obtains \<open>token\<close> from \<open>Depends(oauth2_scheme)\<close> and calls its accessor
  function; a dependency that raises ends the request before the accessor runs.\<close>

definition create_contact_route ::
  "(string \<Rightarrow> jwt_error + payload) \<Rightarrow> session \<Rightarrow> contact_create \<Rightarrow> string option
     \<Rightarrow> (error + contact) \<times> session" where
  "create_contact_route jwt db contact authorization =
     (case oauth2_scheme authorization of
        Inl e \<Rightarrow> (Inl e, db)
      | Inr token \<Rightarrow> create_contact jwt db contact token)"

definition read_contacts ::
  "(string \<Rightarrow> jwt_error + payload) \<Rightarrow> (int \<Rightarrow> int \<Rightarrow> contact list \<Rightarrow> error + contact list)
     \<Rightarrow> session \<Rightarrow> int \<Rightarrow> int \<Rightarrow> string option \<Rightarrow> error + contact list" where
  "read_contacts jwt engine db skip limit authorization =
     (case oauth2_scheme authorization of
        Inl e \<Rightarrow> Inl e
      | Inr token \<Rightarrow> get_contacts jwt engine db skip limit token)"

definition read_contact ::
  "(string \<Rightarrow> jwt_error + payload) \<Rightarrow> session \<Rightarrow> int \<Rightarrow> string option \<Rightarrow> error + contact option" where
  "read_contact jwt db cid authorization =
     (case oauth2_scheme authorization of
        Inl e \<Rightarrow> Inl e
      | Inr token \<Rightarrow> get_contact jwt db cid token)"

definition update_contact_route ::
  "(string \<Rightarrow> jwt_error + payload) \<Rightarrow> session \<Rightarrow> int \<Rightarrow> contact_update \<Rightarrow> string option
     \<Rightarrow> (error + contact option) \<times> session" where
  "update_contact_route jwt db cid contact authorization =
     (case oauth2_scheme authorization of
        Inl e \<Rightarrow> (Inl e, db)
      | Inr token \<Rightarrow> update_contact jwt db cid contact token)"

definition delete_contact_route ::
  "(string \<Rightarrow> jwt_error + payload) \<Rightarrow> session \<Rightarrow> int \<Rightarrow> string option \<Rightarrow> (error + bool) \<times> session" where
  "delete_contact_route jwt db cid authorization =
     (case oauth2_scheme authorization of
        Inl e \<Rightarrow> (Inl e, db)
      | Inr token \<Rightarrow> delete_contact jwt db cid token)"

definition search_contacts_route ::
  "(string \<Rightarrow> jwt_error + payload) \<Rightarrow> session \<Rightarrow> string \<Rightarrow> string option \<Rightarrow> error + contact list" where
  "search_contacts_route jwt db query authorization =
     (case oauth2_scheme authorization of
        Inl e \<Rightarrow> Inl e
      | Inr token \<Rightarrow> search_contacts jwt db query token)"

definition upcoming_birthdays_route ::
  "(string \<Rightarrow> jwt_error + payload) \<Rightarrow> date \<Rightarrow> session \<Rightarrow> string option \<Rightarrow> error + contact list" where
  "upcoming_birthdays_route jwt today db authorization =
     (case oauth2_scheme authorization of
        Inl e \<Rightarrow> Inl e
      | Inr token \<Rightarrow> get_upcoming_birthdays jwt today db token)"

section \<open>Rejected credentials\<close>

text \<open>
  A credential is rejected when the \<open>Authorization\<close> header is missing or is not a bearer
  credential (the dependency raises), when the verifier raises \<open>JWTError\<close> for the token
  (malformed, expired, wrong signature), or when the token carries no claims.
\<close>

definition credential_rejected :: "(string \<Rightarrow> jwt_error + payload) \<Rightarrow> string option \<Rightarrow> bool" where
  "credential_rejected jwt authorization =
     (case oauth2_scheme authorization of
        Inl e \<Rightarrow> True
      | Inr token \<Rightarrow> (case jwt token of Inl JWTError \<Rightarrow> True | Inr payload \<Rightarrow> payload = []))"

section \<open>The birthday window, in the words of the spec\<close>

text \<open>
  The birthday re-anchored to today's year, and to the next year when that date precedes
  today; a birthday is upcoming when the re-anchored date lies in the window from
  \<open>today\<close> to \<open>next_week\<close>, both included.
\<close>

definition reanchor :: "date \<Rightarrow> date \<Rightarrow> error + date" where
  "reanchor today b =
     (case date_replace_year b (year today) of
        Inl e \<Rightarrow> Inl e
      | Inr this_year \<Rightarrow>
          if date_less this_year today then date_replace_year b (year today + 1)
          else Inr this_year)"

definition birthday_upcoming :: "date \<Rightarrow> date \<Rightarrow> date \<Rightarrow> bool" where
  "birthday_upcoming today next_week b =
     (case reanchor today b of
        Inl e \<Rightarrow> False
      | Inr d \<Rightarrow> date_le today d \<and> date_le d next_week)"

section \<open>Literal search, in the words of the spec\<close>

text \<open>
  The spec's search predicate: the query occurs as a case-insensitive substring of the first
  name, the last name or the email. \<open>wildcard_free\<close> holds for a query without the two
  pattern characters of \<open>LIKE\<close>.
\<close>

definition wildcard_free :: "string \<Rightarrow> bool" where
  "wildcard_free q = (CHR ''%'' \<notin> set q \<and> CHR ''_'' \<notin> set q)"

definition ci_substring :: "string \<Rightarrow> string \<Rightarrow> bool" where
  "ci_substring q s = sublist (lower q) (lower s)"

definition matches_literally :: "string \<Rightarrow> contact \<Rightarrow> bool" where
  "matches_literally q c =
     (ci_substring q (first_name c) \<or> ci_substring q (last_name c) \<or> ci_substring q (email c))"

text \<open>A \<open>ContactUpdate\<close> with no field set.\<close>

definition no_fields :: contact_update where
  "no_fields = \<lparr>set_first_name = None, set_last_name = None, set_email = None, set_phone = None,
                 set_birthday = None, set_extra = None, set_user_id = None\<rparr>"

section \<open>Example data\<close>

text \<open>A verifier that knows two tokens, of the users 1 and 2, and rejects every other
  string; two stored contacts of user 1 and one of user 2.\<close>

definition demo_jwt :: "string \<Rightarrow> jwt_error + payload" where
  "demo_jwt token =
     (if token = ''alice'' then Inr [(''user_id'', IntClaim 1), (''email'', StrClaim ''alice@example.com'')]
      else if token = ''bob'' then Inr [(''user_id'', IntClaim 2), (''email'', StrClaim ''bob@example.com'')]
      else Inl JWTError)"

definition john :: contact where
  "john = \<lparr>ident = 1, first_name = ''John'', last_name = ''Doe'', email = ''jd@example.com'',
            phone = ''555-0100'', birthday = \<lparr>year = 1990, month = 6, day = 28\<rparr>,
            extra = None, user_id = Some 1\<rparr>"

definition mary :: contact where
  "mary = \<lparr>ident = 2, first_name = ''Mary'', last_name = ''JOHNSON'', email = ''mj@example.com'',
            phone = ''555-0101'', birthday = \<lparr>year = 1985, month = 12, day = 30\<rparr>,
            extra = Some ''colleague'', user_id = Some 1\<rparr>"

definition zed :: contact where
  "zed = \<lparr>ident = 3, first_name = ''Zed'', last_name = ''Young'', email = ''zy@example.com'',
           phone = ''555-0102'', birthday = \<lparr>year = 1970, month = 2, day = 26\<rparr>,
           extra = None, user_id = Some 2\<rparr>"

definition demo_db :: session where
  "demo_db = \<lparr>contacts = [john, mary, zed], next_id = 4\<rparr>"

definition demo_create :: contact_create where
  "demo_create = \<lparr>new_first_name = ''Ann'', new_last_name = ''Lee'', new_email = ''al@example.com'',
                   new_phone = ''555-0103'', new_birthday = \<lparr>year = 2001, month = 3, day = 14\<rparr>,
                   new_extra = None, new_user_id = Some 2\<rparr>"

definition ann :: contact where
  "ann = \<lparr>ident = 4, first_name = ''Ann'', last_name = ''Lee'', email = ''al@example.com'',
           phone = ''555-0103'', birthday = \<lparr>year = 2001, month = 3, day = 14\<rparr>,
           extra = None, user_id = Some 1\<rparr>"

definition no_engine :: "int \<Rightarrow> int \<Rightarrow> contact list \<Rightarrow> error + contact list" where
  "no_engine skip limit rows = Inl (HTTPException 500 ''Internal Server Error'')"

text \<open>An engine that reads a negative \<open>LIMIT\<close> as no limit and a negative \<open>OFFSET\<close> as
  zero, as SQLite does.\<close>

definition sqlite_engine :: "int \<Rightarrow> int \<Rightarrow> contact list \<Rightarrow> error + contact list" where
  "sqlite_engine skip limit rows =
     Inr ((if limit < 0 then (\<lambda>xs. xs) else take (nat limit)) (drop (nat skip) rows))"

text \<open>The store after \<open>alice\<close> has created \<open>ann\<close> from \<open>demo_create\<close>.\<close>

definition demo_db_ann :: session where
  "demo_db_ann = \<lparr>contacts = [john, mary, zed, ann], next_id = 5\<rparr>"

text \<open>An update that sets the phone and clears the note.\<close>

definition demo_update :: contact_update where
  "demo_update = \<lparr>set_first_name = None, set_last_name = None, set_email = None,
                   set_phone = Some ''555-0199'', set_birthday = None, set_extra = Some None,
                   set_user_id = None\<rparr>"

text \<open>A validated update by which \<open>alice\<close> sets the \<open>user_id\<close> of \<open>ann\<close> to user 2,
  and the store after it.\<close>

definition give_to_bob :: contact_update where
  "give_to_bob = \<lparr>set_first_name = Some ''Ann'', set_last_name = Some ''Lee'',
                   set_email = Some ''al@example.com'', set_phone = Some ''555-0103'',
                   set_birthday = Some \<lparr>year = 2001, month = 3, day = 14\<rparr>,
                   set_extra = None, set_user_id = Some (Some 2)\<rparr>"

definition demo_db_given :: session where
  "demo_db_given = \<lparr>contacts = [john, mary, zed, ann\<lparr>user_id := Some 2\<rparr>], next_id = 5\<rparr>"

text \<open>A contact of user 1 born on 29 February, and a store that holds it.\<close>

definition leapling :: contact where
  "leapling = \<lparr>ident = 5, first_name = ''Leah'', last_name = ''Day'', email = ''ld@example.com'',
                phone = ''555-0104'', birthday = \<lparr>year = 1992, month = 2, day = 29\<rparr>,
                extra = None, user_id = Some 1\<rparr>"

definition demo_db_leap :: session where
  "demo_db_leap = \<lparr>contacts = [john, mary, zed, leapling], next_id = 6\<rparr>"

section \<open>Authentication\<close>

lemma authenticate_rejects:
  "jwt token = Inl JWTError \<or> jwt token = Inr [] \<Longrightarrow> authenticate jwt token = Inl invalid_token"
  by (auto simp: authenticate_def decode_access_token_def)

lemma authenticate_error: "authenticate jwt token = Inl e \<Longrightarrow> e = invalid_token"
  by (auto simp: authenticate_def split: option.splits if_splits)

lemma oauth2_scheme_error: "oauth2_scheme authorization = Inl e \<Longrightarrow> e = not_authenticated"
  by (auto simp: oauth2_scheme_def split: option.splits if_splits)

lemma is_unauthenticated_simps [simp]:
  "is_unauthenticated invalid_token" "is_unauthenticated not_authenticated"
  by (simp_all add: is_unauthenticated_def invalid_token_def not_authenticated_def
      HTTP_401_UNAUTHORIZED_def)

lemma authenticate_alice [simp]: "authenticate demo_jwt ''alice'' = Inr (Some 1)"
  by (simp add: authenticate_def decode_access_token_def demo_jwt_def get_user_id_def)

lemma authenticate_bob [simp]: "authenticate demo_jwt ''bob'' = Inr (Some 2)"
  by (simp add: authenticate_def decode_access_token_def demo_jwt_def get_user_id_def)

lemma crud_unauthenticated:
  assumes "authenticate jwt token = Inl e"
  shows "create_contact jwt db cc token = (Inl e, db)"
    and "get_contacts jwt engine db skip limit token = Inl e"
    and "get_contact jwt db cid token = Inl e"
    and "update_contact jwt db cid u token = (Inl e, db)"
    and "delete_contact jwt db cid token = (Inl e, db)"
    and "search_contacts jwt db q token = Inl e"
    and "get_upcoming_birthdays jwt today db token = Inl e"
  using assms
  by (simp_all add: create_contact_def get_contacts_def get_contact_def update_contact_def
      delete_contact_def search_contacts_def get_upcoming_birthdays_def)

lemma credential_rejected_cases:
  assumes "credential_rejected jwt authorization"
  obtains (dependency) e where "is_unauthenticated e" "oauth2_scheme authorization = Inl e"
  | (accessor) e token where "is_unauthenticated e" "oauth2_scheme authorization = Inr token"
      "authenticate jwt token = Inl e"
proof (cases "oauth2_scheme authorization")
  case (Inl e)
  then show ?thesis using dependency oauth2_scheme_error by fastforce
next
  case (Inr token)
  with assms have "jwt token = Inl JWTError \<or> jwt token = Inr []"
    by (auto simp: credential_rejected_def split: sum.splits jwt_error.splits)
  then have "authenticate jwt token = Inl invalid_token" by (rule authenticate_rejects)
  with Inr show ?thesis using accessor by fastforce
qed

text \<open>
  C4. Whatever the operation, a rejected credential (missing, not a bearer credential,
  refused by the verifier as malformed, expired or wrongly signed, or without claims) ends
  the request with a 401 error, and the store is returned as it was: the error is raised
  before the first query, so the outcome does not depend on the store either.
\<close>

theorem unauthenticated_rejected_before_store:
  assumes "credential_rejected jwt authorization"
  shows "\<exists>e. is_unauthenticated e
     \<and> (\<forall>db cc engine skip limit cid u q today.
           create_contact_route jwt db cc authorization = (Inl e, db)
         \<and> read_contacts jwt engine db skip limit authorization = Inl e
         \<and> read_contact jwt db cid authorization = Inl e
         \<and> update_contact_route jwt db cid u authorization = (Inl e, db)
         \<and> delete_contact_route jwt db cid authorization = (Inl e, db)
         \<and> search_contacts_route jwt db q authorization = Inl e
         \<and> upcoming_birthdays_route jwt today db authorization = Inl e)"
  using assms
proof (cases rule: credential_rejected_cases)
  case (dependency e)
  then show ?thesis
    by (intro exI [of _ e])
      (simp add: create_contact_route_def read_contacts_def read_contact_def
        update_contact_route_def delete_contact_route_def search_contacts_route_def
        upcoming_birthdays_route_def)
next
  case (accessor e token)
  then show ?thesis
    by (intro exI [of _ e])
      (simp add: create_contact_route_def read_contacts_def read_contact_def
        update_contact_route_def delete_contact_route_def search_contacts_route_def
        upcoming_birthdays_route_def crud_unauthenticated)
qed

theorem unauthenticated_rejected_witness:
  "credential_rejected demo_jwt None
   \<and> credential_rejected demo_jwt (Some ''Bearer expired.token'')
   \<and> create_contact_route demo_jwt demo_db demo_create None = (Inl not_authenticated, demo_db)
   \<and> create_contact_route demo_jwt demo_db demo_create (Some ''Bearer expired.token'')
       = (Inl invalid_token, demo_db)
   \<and> delete_contact_route demo_jwt demo_db 1 (Some ''Bearer expired.token'')
       = (Inl invalid_token, demo_db)
   \<and> upcoming_birthdays_route demo_jwt \<lparr>year = 2024, month = 6, day = 25\<rparr> demo_db
         (Some ''Bearer expired.token'') = Inl invalid_token"
proof -
  let ?h = "Some ''Bearer expired.token''"
  let ?today = "\<lparr>year = 2024, month = 6, day = 25\<rparr>"
  have missing: "credential_rejected demo_jwt None"
    by (simp add: credential_rejected_def oauth2_scheme_def)
  have expired: "credential_rejected demo_jwt ?h"
    by (simp add: credential_rejected_def oauth2_scheme_def lower_def lower_char_def demo_jwt_def)
  have a: "authenticate demo_jwt ''expired.token'' = Inl invalid_token"
    by (simp add: authenticate_def decode_access_token_def demo_jwt_def)
  from unauthenticated_rejected_before_store [OF missing]
  obtain e0 where e0: "create_contact_route demo_jwt demo_db demo_create None = (Inl e0, demo_db)"
    by blast
  have "e0 = not_authenticated"
    using e0 by (simp add: create_contact_route_def oauth2_scheme_def)
  from unauthenticated_rejected_before_store [OF expired]
  obtain e where e:
    "create_contact_route demo_jwt demo_db demo_create ?h = (Inl e, demo_db)"
    "delete_contact_route demo_jwt demo_db 1 ?h = (Inl e, demo_db)"
    "upcoming_birthdays_route demo_jwt ?today demo_db ?h = Inl e"
    by blast
  have "e = invalid_token"
    using e(2) a
    by (simp add: delete_contact_route_def oauth2_scheme_def lower_def lower_char_def
        delete_contact_def)
  with missing expired e e0 \<open>e0 = not_authenticated\<close> show ?thesis by simp
qed

section \<open>Ownership scoping\<close>

lemma find_owned_row:
  "find (owned_row cid uid) rows = Some c \<Longrightarrow> c \<in> set rows \<and> ident c = cid \<and> user_id c = uid"
  by (auto simp: find_Some_iff owned_row_def)

lemma find_owned_row_None:
  "find (owned_row cid uid) rows = None \<longleftrightarrow> (\<forall>c\<in>set rows. ident c = cid \<longrightarrow> user_id c \<noteq> uid)"
  by (auto simp: find_None_iff owned_row_def)

lemma birthdays_loop_subset:
  "birthdays_loop today next_week cs upcoming = Inr r \<Longrightarrow> set r \<subseteq> set upcoming \<union> set cs"
proof (induction cs arbitrary: upcoming)
  case Nil
  then show ?case by auto
next
  case (Cons c cs)
  from Cons.prems obtain acc where "birthdays_loop today next_week cs acc = Inr r"
    and "set acc \<subseteq> set upcoming \<union> {c}"
    by (auto split: sum.splits if_splits)
  with Cons.IH [of acc] show ?case by auto
qed

lemma get_contact_owned:
  assumes "authenticate jwt token = Inr uid" "get_contact jwt db cid token = Inr (Some c)"
  shows "user_id c = uid \<and> ident c = cid \<and> c \<in> set (contacts db)"
  using assms by (auto simp: get_contact_def dest: find_owned_row)

lemma offset_limit_subset:
  assumes "\<And>rows rs. engine skip limit rows = Inr rs \<Longrightarrow> set rs \<subseteq> set rows"
    and "offset_limit engine skip limit rows = Inr cs"
  shows "set cs \<subseteq> set rows"
proof (cases "0 \<le> skip \<and> 0 \<le> limit")
  case True
  with assms(2) have "cs = take (nat limit) (drop (nat skip) rows)"
    by (simp add: offset_limit_def)
  then show ?thesis
    by (metis set_take_subset set_drop_subset subset_trans)
next
  case False
  with assms show ?thesis by (simp add: offset_limit_def)
qed

lemma get_contacts_owned:
  assumes "authenticate jwt token = Inr uid"
    and "\<And>rows rs. engine skip limit rows = Inr rs \<Longrightarrow> set rs \<subseteq> set rows"
    and "get_contacts jwt engine db skip limit token = Inr cs"
  shows "\<forall>c\<in>set cs. user_id c = uid \<and> c \<in> set (contacts db)"
proof -
  from assms(1,3) have "offset_limit engine skip limit (filter (\<lambda>c. user_id c = uid) (contacts db)) = Inr cs"
    by (simp add: get_contacts_def)
  from offset_limit_subset [OF assms(2) this] show ?thesis by auto
qed

lemma search_contacts_owned:
  assumes "authenticate jwt token = Inr uid" "search_contacts jwt db q token = Inr cs"
  shows "\<forall>c\<in>set cs. user_id c = uid \<and> c \<in> set (contacts db)"
  using assms by (auto simp: search_contacts_def search_row_def)

lemma get_upcoming_birthdays_owned:
  assumes "authenticate jwt token = Inr uid" "get_upcoming_birthdays jwt today db token = Inr cs"
  shows "\<forall>c\<in>set cs. user_id c = uid \<and> c \<in> set (contacts db)"
proof -
  from assms obtain next_week where
    "birthdays_loop today next_week (filter (\<lambda>c. user_id c = uid) (contacts db)) [] = Inr cs"
    by (auto simp: get_upcoming_birthdays_def split: sum.splits)
  from birthdays_loop_subset [OF this] show ?thesis by auto
qed

lemma create_contact_result:
  assumes "authenticate jwt token = Inr uid"
  shows "create_contact jwt db cc token =
     (Inr \<lparr>ident = next_id db, first_name = new_first_name cc, last_name = new_last_name cc,
           email = new_email cc, phone = new_phone cc, birthday = new_birthday cc,
           extra = new_extra cc, user_id = uid\<rparr>,
      db\<lparr>contacts := contacts db @
             [\<lparr>ident = next_id db, first_name = new_first_name cc, last_name = new_last_name cc,
               email = new_email cc, phone = new_phone cc, birthday = new_birthday cc,
               extra = new_extra cc, user_id = uid\<rparr>],
         next_id := next_id db + 1\<rparr>)"
  using assms by (simp add: create_contact_def Let_def)

lemma find_owned_row_unique:
  assumes "distinct (map ident rows)" "c \<in> set rows" "user_id c = uid"
  shows "find (owned_row (ident c) uid) rows = Some c"
  using assms
proof (induction rows)
  case Nil
  then show ?case by simp
next
  case (Cons r rows)
  then show ?case by (auto simp: owned_row_def)
qed

lemma find_owned_row_append_new:
  assumes "list_all (\<lambda>r. ident r < ident c) rows" "user_id c = uid"
  shows "find (owned_row (ident c) uid) (rows @ [c]) = Some c"
  using assms by (induction rows) (auto simp: owned_row_def)

lemma store_ok_create:
  assumes "store_ok db" "create_contact jwt db cc token = (r, db')"
  shows "store_ok db'"
proof (cases "authenticate jwt token")
  case (Inl e)
  with assms show ?thesis by (simp add: create_contact_def)
next
  case (Inr uid)
  from assms(2) have db': "contacts db' = contacts db @ [\<lparr>ident = next_id db, first_name = new_first_name cc, last_name = new_last_name cc,
           email = new_email cc, phone = new_phone cc, birthday = new_birthday cc,
           extra = new_extra cc, user_id = uid\<rparr>]" "next_id db' = next_id db + 1"
    by (auto simp: create_contact_result [OF Inr])
  from assms(1) have "distinct (map ident (contacts db))" "\<forall>c\<in>set (contacts db). ident c < next_id db"
    by (auto simp: store_ok_def list_all_iff)
  then show ?thesis
    unfolding store_ok_def db' by (fastforce simp: list_all_iff)
qed

lemma set_fields_no_fields [simp]: "set_fields no_fields c = c"
  by (simp add: set_fields_def no_fields_def)

lemma set_fields_ident [simp]: "ident (set_fields u c) = ident c"
  by (simp add: set_fields_def)

lemma store_ok_empty: "store_ok \<lparr>contacts = [], next_id = 1\<rparr>"
  by (simp add: store_ok_def)

lemma store_ok_update:
  assumes "store_ok db" "update_contact jwt db cid u token = (r, db')"
  shows "store_ok db'"
proof -
  have keep: "ident \<circ> (\<lambda>r. if ident r = ident c then set_fields u c else r) = ident" for c
    by (rule ext) simp
  have "store_ok (db\<lparr>contacts := map (\<lambda>r. if ident r = ident c then set_fields u c else r)
      (contacts db)\<rparr>)" for c
    using assms(1) by (auto simp: store_ok_def list_all_iff keep)
  with assms show ?thesis
    by (auto simp: update_contact_def Let_def split: sum.splits option.splits)
qed

lemma store_ok_delete:
  assumes "store_ok db" "delete_contact jwt db cid token = (r, db')"
  shows "store_ok db'"
  using assms
  by (auto simp: delete_contact_def store_ok_def distinct_map_filter list_all_iff
      split: sum.splits option.splits)

lemma find_owned_row_iff:
  assumes "distinct (map ident rows)"
  shows "find (owned_row cid uid) rows = Some c \<longleftrightarrow> c \<in> set rows \<and> ident c = cid \<and> user_id c = uid"
  using find_owned_row find_owned_row_unique [OF assms] by blast

lemma map_replace_same:
  assumes "distinct (map ident rows)" "c \<in> set rows"
  shows "map (\<lambda>r. if ident r = ident c then c else r) rows = rows"
proof -
  have "(if ident r = ident c then c else r) = r" if "r \<in> set rows" for r
    using assms that by (auto simp: distinct_map inj_on_def)
  then show ?thesis by (simp add: map_idI)
qed

lemma filter_ident_remove1:
  assumes "distinct (map ident rows)" "c \<in> set rows"
  shows "filter (\<lambda>r. ident r \<noteq> ident c) rows = remove1 c rows"
  using assms
proof (induction rows)
  case Nil
  then show ?case by simp
next
  case (Cons r rows)
  show ?case
  proof (cases "r = c")
    case True
    from Cons.prems(1) True have "ident c \<notin> ident ` set rows" by simp
    then have "\<forall>x\<in>set rows. ident x \<noteq> ident c" by (metis imageI)
    then have "filter (\<lambda>r. ident r \<noteq> ident c) rows = rows" by (simp add: filter_id_conv)
    with True show ?thesis by simp
  next
    case False
    with Cons.prems have "c \<in> set rows" "ident r \<noteq> ident c" "distinct (map ident rows)"
      by auto
    with Cons.IH False show ?thesis by simp
  qed
qed

lemma later_7:
  "later 7 d = next_day (next_day (next_day (next_day (next_day (next_day (next_day d))))))"
  by (simp add: eval_nat_numeral)

lemmas date_eval =
  date_add_days_def later_7 next_day_def days_in_month_def is_leap_def MAXYEAR_def MINYEAR_def
  date_replace_year_def date_less_def date_le_def

lemma no_engine_subset: "no_engine skip limit rows = Inr rs \<Longrightarrow> set rs \<subseteq> set rows"
  by (simp add: no_engine_def)

lemma create_ann: "create_contact demo_jwt demo_db demo_create ''alice'' = (Inr ann, demo_db_ann)"
  by (simp add: create_contact_result [OF authenticate_alice] demo_db_def demo_create_def ann_def
      demo_db_ann_def)

lemma store_ok_demo_db: "store_ok demo_db"
  by (simp add: store_ok_def demo_db_def john_def mary_def zed_def)

text \<open>
  The four read operations are scoped to the requester. Let a contact \<open>c\<close> be created
  under the verified identity \<open>ownerA\<close>, and let \<open>ownerB\<close> be another identity. On
  every store, \<open>get_contact\<close>, \<open>get_contacts\<close>, \<open>search_contacts\<close> and
  \<open>get_upcoming_birthdays\<close> called with \<open>ownerB\<close>'s token never return the record \<open>c\<close>,
  and every contact they return has \<open>user_id\<close> equal to \<open>ownerB\<close>. For negative \<open>skip\<close>
  or \<open>limit\<close> the store is only assumed to return rows of the query.
\<close>

theorem owner_isolation:
  assumes "authenticate jwt tokenA = Inr ownerA"
    and "authenticate jwt tokenB = Inr ownerB"
    and "ownerA \<noteq> ownerB"
    and "create_contact jwt db0 cc tokenA = (Inr c, db1)"
    and "\<And>rows rs. engine skip limit rows = Inr rs \<Longrightarrow> set rs \<subseteq> set rows"
  shows "get_contact jwt db cid tokenB \<noteq> Inr (Some c)
    \<and> (\<forall>cs. get_contacts jwt engine db skip limit tokenB = Inr cs \<longrightarrow>
          c \<notin> set cs \<and> (\<forall>r\<in>set cs. user_id r = ownerB))
    \<and> (\<forall>cs. search_contacts jwt db q tokenB = Inr cs \<longrightarrow>
          c \<notin> set cs \<and> (\<forall>r\<in>set cs. user_id r = ownerB))
    \<and> (\<forall>cs. get_upcoming_birthdays jwt today db tokenB = Inr cs \<longrightarrow>
          c \<notin> set cs \<and> (\<forall>r\<in>set cs. user_id r = ownerB))
    \<and> (\<forall>r. get_contact jwt db cid tokenB = Inr (Some r) \<longrightarrow> user_id r = ownerB)"
proof -
  from assms(1,4) have c: "user_id c = ownerA"
    by (auto simp: create_contact_result)
  with assms(3) have ne: "user_id c \<noteq> ownerB" by simp
  have 1: "get_contact jwt db cid tokenB \<noteq> Inr (Some c)"
    using get_contact_owned [OF assms(2)] ne by blast
  have 2: "c \<notin> set cs \<and> (\<forall>r\<in>set cs. user_id r = ownerB)"
    if "get_contacts jwt engine db skip limit tokenB = Inr cs" for cs
    using get_contacts_owned [OF assms(2) assms(5) that] ne by blast
  have 3: "c \<notin> set cs \<and> (\<forall>r\<in>set cs. user_id r = ownerB)"
    if "search_contacts jwt db q tokenB = Inr cs" for cs
    using search_contacts_owned [OF assms(2) that] ne by blast
  have 4: "c \<notin> set cs \<and> (\<forall>r\<in>set cs. user_id r = ownerB)"
    if "get_upcoming_birthdays jwt today db tokenB = Inr cs" for cs
    using get_upcoming_birthdays_owned [OF assms(2) that] ne by blast
  have 5: "user_id r = ownerB" if "get_contact jwt db cid tokenB = Inr (Some r)" for r
    using get_contact_owned [OF assms(2) that] by simp
  from 1 2 3 4 5 show ?thesis by blast
qed


theorem owner_isolation_witness:
  "authenticate demo_jwt ''alice'' = Inr (Some 1)
   \<and> authenticate demo_jwt ''bob'' = Inr (Some 2)
   \<and> create_contact demo_jwt demo_db demo_create ''alice'' = (Inr ann, demo_db_ann)
   \<and> get_contact demo_jwt demo_db_ann 4 ''bob'' = Inr None
   \<and> get_contact demo_jwt demo_db_ann 4 ''alice'' = Inr (Some ann)
   \<and> get_contacts demo_jwt no_engine demo_db_ann 0 10 ''bob'' = Inr [zed]
   \<and> search_contacts demo_jwt demo_db_ann ''ann'' ''bob'' = Inr []
   \<and> search_contacts demo_jwt demo_db_ann ''ann'' ''alice'' = Inr [ann]
   \<and> get_upcoming_birthdays demo_jwt \<lparr>year = 2023, month = 3, day = 10\<rparr> demo_db_ann ''bob'' = Inr []
   \<and> get_upcoming_birthdays demo_jwt \<lparr>year = 2023, month = 3, day = 10\<rparr> demo_db_ann ''alice'' = Inr [ann]"
proof -
  let ?today = "\<lparr>year = 2023, month = 3, day = 10\<rparr>"
  note iso = owner_isolation [OF authenticate_alice authenticate_bob _ create_ann no_engine_subset,
      where db = demo_db_ann and cid = 4 and q = "''ann''" and today = ?today]
  have g: "get_contact demo_jwt demo_db_ann 4 ''bob'' = Inr None"
    by (simp add: get_contact_def demo_db_ann_def owned_row_def john_def mary_def zed_def ann_def)
  have g': "get_contact demo_jwt demo_db_ann 4 ''alice'' = Inr (Some ann)"
    by (simp add: get_contact_def demo_db_ann_def owned_row_def john_def mary_def zed_def ann_def)
  have l: "get_contacts demo_jwt no_engine demo_db_ann 0 10 ''bob'' = Inr [zed]"
    by (simp add: get_contacts_def offset_limit_def demo_db_ann_def john_def mary_def zed_def ann_def)
  have s: "search_contacts demo_jwt demo_db_ann ''ann'' ''bob'' = Inr []"
   by (simp add: search_contacts_def search_row_def ilike_def lower_def lower_char_def
        demo_db_ann_def john_def mary_def zed_def ann_def)
  have s': "search_contacts demo_jwt demo_db_ann ''ann'' ''alice'' = Inr [ann]"
   by (simp add: search_contacts_def search_row_def ilike_def lower_def lower_char_def
        demo_db_ann_def john_def mary_def zed_def ann_def)
  have b: "get_upcoming_birthdays demo_jwt ?today demo_db_ann ''bob'' = Inr []"
    by (simp add: get_upcoming_birthdays_def date_add_days_def later_7 next_day_def
        days_in_month_def is_leap_def MAXYEAR_def MINYEAR_def date_replace_year_def date_less_def
        date_le_def demo_db_ann_def john_def mary_def zed_def ann_def)
  have b': "get_upcoming_birthdays demo_jwt ?today demo_db_ann ''alice'' = Inr [ann]"
    by (simp add: get_upcoming_birthdays_def date_add_days_def later_7 next_day_def
        days_in_month_def is_leap_def MAXYEAR_def MINYEAR_def date_replace_year_def date_less_def
        date_le_def demo_db_ann_def john_def mary_def zed_def ann_def)
  from iso have "get_contact demo_jwt demo_db_ann 4 ''bob'' \<noteq> Inr (Some ann)" by simp
  with g g' l s s' b b' create_ann show ?thesis by simp
qed

text \<open>
  C1. A contact created under one identity can reach the results of another: \<open>alice\<close>
  creates \<open>ann\<close> and then updates it with \<open>user_id\<close> set to user 2. \<open>create_contact\<close>
  drops a supplied \<open>user_id\<close>; \<open>update_contact\<close> assigns it like any other field. After
  the update the contact with the id of \<open>ann\<close> is returned to \<open>bob\<close> by \<open>get_contact\<close>,
  \<open>get_contacts\<close>, \<open>search_contacts\<close> and \<open>get_upcoming_birthdays\<close>.
\<close>

theorem owner_reassigned_by_update:
  "validated_update give_to_bob
   \<and> create_contact demo_jwt demo_db demo_create ''alice'' = (Inr ann, demo_db_ann)
   \<and> update_contact demo_jwt demo_db_ann 4 give_to_bob ''alice''
       = (Inr (Some (ann\<lparr>user_id := Some 2\<rparr>)), demo_db_given)
   \<and> get_contact demo_jwt demo_db_given 4 ''bob'' = Inr (Some (ann\<lparr>user_id := Some 2\<rparr>))
   \<and> get_contacts demo_jwt no_engine demo_db_given 0 100 ''bob'' = Inr [zed, ann\<lparr>user_id := Some 2\<rparr>]
   \<and> search_contacts demo_jwt demo_db_given ''ann'' ''bob'' = Inr [ann\<lparr>user_id := Some 2\<rparr>]
   \<and> get_upcoming_birthdays demo_jwt \<lparr>year = 2023, month = 3, day = 10\<rparr> demo_db_given ''bob''
       = Inr [ann\<lparr>user_id := Some 2\<rparr>]"
proof -
  have v: "validated_update give_to_bob"
    by (simp add: validated_update_def give_to_bob_def)
  have u: "update_contact demo_jwt demo_db_ann 4 give_to_bob ''alice''
       = (Inr (Some (ann\<lparr>user_id := Some 2\<rparr>)), demo_db_given)"
    by (simp add: update_contact_def owned_row_def set_fields_def give_to_bob_def demo_db_ann_def
        demo_db_given_def john_def mary_def zed_def ann_def Let_def)
  have g: "get_contact demo_jwt demo_db_given 4 ''bob'' = Inr (Some (ann\<lparr>user_id := Some 2\<rparr>))"
    by (simp add: get_contact_def owned_row_def demo_db_given_def john_def mary_def zed_def ann_def)
  have l: "get_contacts demo_jwt no_engine demo_db_given 0 100 ''bob'' = Inr [zed, ann\<lparr>user_id := Some 2\<rparr>]"
    by (simp add: get_contacts_def offset_limit_def demo_db_given_def john_def mary_def zed_def ann_def)
  have s: "search_contacts demo_jwt demo_db_given ''ann'' ''bob'' = Inr [ann\<lparr>user_id := Some 2\<rparr>]"
    by (simp add: search_contacts_def search_row_def ilike_def lower_def lower_char_def
        demo_db_given_def john_def mary_def zed_def ann_def)
  have b: "get_upcoming_birthdays demo_jwt \<lparr>year = 2023, month = 3, day = 10\<rparr> demo_db_given ''bob''
       = Inr [ann\<lparr>user_id := Some 2\<rparr>]"
    by (simp add: get_upcoming_birthdays_def date_eval demo_db_given_def john_def mary_def zed_def
        ann_def)
  from v create_ann u g l s b show ?thesis by simp
qed

section \<open>Create\<close>

text \<open>
  C3. With a verified identity, \<open>create_contact\<close> stores and returns a new contact that
  carries the fields of the request, the \<open>user_id\<close> of the token, and the next generated
  id, which no stored contact has. The \<open>user_id\<close> of the request is not read: replacing it
  by any other value gives the same record and the same store. The record is persisted: it
  is the last row of the table and \<open>get_contact\<close> returns it under its id.
\<close>

theorem create_binds_verified_owner:
  assumes "authenticate jwt token = Inr uid" and "store_ok db"
  shows "\<exists>c db'. create_contact jwt db cc token = (Inr c, db')
     \<and> user_id c = uid
     \<and> first_name c = new_first_name cc \<and> last_name c = new_last_name cc
     \<and> email c = new_email cc \<and> phone c = new_phone cc
     \<and> birthday c = new_birthday cc \<and> extra c = new_extra cc
     \<and> ident c = next_id db \<and> ident c \<notin> set (map ident (contacts db))
     \<and> contacts db' = contacts db @ [c]
     \<and> get_contact jwt db' (ident c) token = Inr (Some c)
     \<and> store_ok db'
     \<and> (\<forall>x. create_contact jwt db (cc\<lparr>new_user_id := x\<rparr>) token = (Inr c, db'))"
proof -
  define c where "c = \<lparr>ident = next_id db, first_name = new_first_name cc, last_name = new_last_name cc,
           email = new_email cc, phone = new_phone cc, birthday = new_birthday cc,
           extra = new_extra cc, user_id = uid\<rparr>"
  define db' where "db' = db\<lparr>contacts := contacts db @ [c], next_id := next_id db + 1\<rparr>"
  have cr: "create_contact jwt db cc token = (Inr c, db')"
    by (simp add: create_contact_result [OF assms(1)] c_def db'_def)
  have cr': "create_contact jwt db (cc\<lparr>new_user_id := x\<rparr>) token = (Inr c, db')" for x
    by (simp add: create_contact_result [OF assms(1)] c_def db'_def)
  from assms(2) have lt: "list_all (\<lambda>r. ident r < ident c) (contacts db)"
    by (simp add: store_ok_def c_def)
  then have fresh: "ident c \<notin> set (map ident (contacts db))"
    by (auto simp: list_all_iff)
  have "find (owned_row (ident c) uid) (contacts db @ [c]) = Some c"
    by (rule find_owned_row_append_new [OF lt]) (simp add: c_def)
  then have get: "get_contact jwt db' (ident c) token = Inr (Some c)"
    by (simp add: get_contact_def assms(1) db'_def)
  have ok: "store_ok db'" by (rule store_ok_create [OF assms(2) cr])
  have fields: "user_id c = uid" "first_name c = new_first_name cc" "last_name c = new_last_name cc"
    "email c = new_email cc" "phone c = new_phone cc" "birthday c = new_birthday cc"
    "extra c = new_extra cc" "ident c = next_id db" "contacts db' = contacts db @ [c]"
    by (simp_all add: c_def db'_def)
  from cr cr' fresh get ok fields show ?thesis by blast
qed

theorem create_binds_verified_owner_witness:
  "authenticate demo_jwt ''alice'' = Inr (Some 1)
   \<and> store_ok demo_db
   \<and> new_user_id demo_create = Some 2
   \<and> create_contact demo_jwt demo_db demo_create ''alice'' = (Inr ann, demo_db_ann)
   \<and> user_id ann = Some 1
   \<and> ident ann = next_id demo_db
   \<and> get_contact demo_jwt demo_db_ann (ident ann) ''alice'' = Inr (Some ann)
   \<and> store_ok demo_db_ann"
proof -
  from create_binds_verified_owner [OF authenticate_alice store_ok_demo_db, of demo_create]
  obtain c db' where "create_contact demo_jwt demo_db demo_create ''alice'' = (Inr c, db')"
    and r: "user_id c = Some 1" "ident c = next_id demo_db"
      "get_contact demo_jwt db' (ident c) ''alice'' = Inr (Some c)" "store_ok db'"
    by blast
  with create_ann have "c = ann" "db' = demo_db_ann" by simp_all
  with r create_ann store_ok_demo_db show ?thesis
    by (simp add: demo_create_def)
qed

section \<open>Update\<close>

text \<open>
  C5. For a stored contact \<open>c\<close> with id \<open>cid\<close> owned by the requester, \<open>update_contact\<close>
  returns and stores a record in which each field that is set in the update has the new
  value and each field that is not set has the value it had in \<open>c\<close>; the id, all other
  rows and the id counter are unchanged. With no field set the record and the store are
  unchanged. When no contact with id \<open>cid\<close> is owned by the requester, the result is
  \<open>None\<close> and the store is unchanged.
\<close>

theorem update_applies_present_fields:
  assumes "authenticate jwt token = Inr uid" and "store_ok db"
  shows "(c \<in> set (contacts db) \<and> ident c = cid \<and> user_id c = uid \<longrightarrow>
      (\<exists>c' db'. update_contact jwt db cid u token = (Inr (Some c'), db')
        \<and> ident c' = ident c
        \<and> first_name c' = (case set_first_name u of Some v \<Rightarrow> v | None \<Rightarrow> first_name c)
        \<and> last_name c' = (case set_last_name u of Some v \<Rightarrow> v | None \<Rightarrow> last_name c)
        \<and> email c' = (case set_email u of Some v \<Rightarrow> v | None \<Rightarrow> email c)
        \<and> phone c' = (case set_phone u of Some v \<Rightarrow> v | None \<Rightarrow> phone c)
        \<and> birthday c' = (case set_birthday u of Some v \<Rightarrow> v | None \<Rightarrow> birthday c)
        \<and> extra c' = (case set_extra u of Some v \<Rightarrow> v | None \<Rightarrow> extra c)
        \<and> user_id c' = (case set_user_id u of Some v \<Rightarrow> v | None \<Rightarrow> user_id c)
        \<and> contacts db' = map (\<lambda>r. if r = c then c' else r) (contacts db)
        \<and> next_id db' = next_id db)
      \<and> update_contact jwt db cid no_fields token = (Inr (Some c), db))
    \<and> ((\<forall>r\<in>set (contacts db). ident r = cid \<longrightarrow> user_id r \<noteq> uid) \<longrightarrow>
          update_contact jwt db cid u token = (Inr None, db))"
proof -
  from assms(2) have d: "distinct (map ident (contacts db))" by (simp add: store_ok_def)
  have found: "\<exists>c' db'. update_contact jwt db cid u token = (Inr (Some c'), db')
        \<and> ident c' = ident c
        \<and> first_name c' = (case set_first_name u of Some v \<Rightarrow> v | None \<Rightarrow> first_name c)
        \<and> last_name c' = (case set_last_name u of Some v \<Rightarrow> v | None \<Rightarrow> last_name c)
        \<and> email c' = (case set_email u of Some v \<Rightarrow> v | None \<Rightarrow> email c)
        \<and> phone c' = (case set_phone u of Some v \<Rightarrow> v | None \<Rightarrow> phone c)
        \<and> birthday c' = (case set_birthday u of Some v \<Rightarrow> v | None \<Rightarrow> birthday c)
        \<and> extra c' = (case set_extra u of Some v \<Rightarrow> v | None \<Rightarrow> extra c)
        \<and> user_id c' = (case set_user_id u of Some v \<Rightarrow> v | None \<Rightarrow> user_id c)
        \<and> contacts db' = map (\<lambda>r. if r = c then c' else r) (contacts db)
        \<and> next_id db' = next_id db"
    and same: "update_contact jwt db cid no_fields token = (Inr (Some c), db)"
    if c: "c \<in> set (contacts db)" "ident c = cid" "user_id c = uid"
  proof -
    have f: "find (owned_row cid uid) (contacts db) = Some c"
      using c by (simp add: find_owned_row_iff [OF d])
    have eq: "(ident r = ident c) = (r = c)" if "r \<in> set (contacts db)" for r
      using d c(1) that by (auto simp: distinct_map inj_on_def)
    have m: "map (\<lambda>r. if ident r = ident c then x else r) (contacts db)
           = map (\<lambda>r. if r = c then x else r) (contacts db)" for x
      by (rule map_cong) (simp_all add: eq)
    have "update_contact jwt db cid u token =
        (Inr (Some (set_fields u c)), db\<lparr>contacts := map (\<lambda>r. if r = c then set_fields u c else r) (contacts db)\<rparr>)"
      by (simp add: update_contact_def assms(1) f m Let_def)
    then show "\<exists>c' db'. update_contact jwt db cid u token = (Inr (Some c'), db')
        \<and> ident c' = ident c
        \<and> first_name c' = (case set_first_name u of Some v \<Rightarrow> v | None \<Rightarrow> first_name c)
        \<and> last_name c' = (case set_last_name u of Some v \<Rightarrow> v | None \<Rightarrow> last_name c)
        \<and> email c' = (case set_email u of Some v \<Rightarrow> v | None \<Rightarrow> email c)
        \<and> phone c' = (case set_phone u of Some v \<Rightarrow> v | None \<Rightarrow> phone c)
        \<and> birthday c' = (case set_birthday u of Some v \<Rightarrow> v | None \<Rightarrow> birthday c)
        \<and> extra c' = (case set_extra u of Some v \<Rightarrow> v | None \<Rightarrow> extra c)
        \<and> user_id c' = (case set_user_id u of Some v \<Rightarrow> v | None \<Rightarrow> user_id c)
        \<and> contacts db' = map (\<lambda>r. if r = c then c' else r) (contacts db)
        \<and> next_id db' = next_id db"
      by (simp add: set_fields_def)
    have "map (\<lambda>r. if ident r = ident c then c else r) (contacts db) = contacts db"
      by (rule map_replace_same [OF d c(1)])
    then show "update_contact jwt db cid no_fields token = (Inr (Some c), db)"
      by (simp add: update_contact_def assms(1) f Let_def)
  qed
  have missing: "update_contact jwt db cid u token = (Inr None, db)"
    if "\<forall>r\<in>set (contacts db). ident r = cid \<longrightarrow> user_id r \<noteq> uid"
  proof -
    from that have "find (owned_row cid uid) (contacts db) = None"
      by (simp add: find_owned_row_None)
    then show ?thesis by (simp add: update_contact_def assms(1))
  qed
  from found same missing show ?thesis by blast
qed

theorem update_applies_present_fields_witness:
  "authenticate demo_jwt ''alice'' = Inr (Some 1)
   \<and> store_ok demo_db
   \<and> update_contact demo_jwt demo_db 2 demo_update ''alice''
       = (Inr (Some (mary\<lparr>phone := ''555-0199'', extra := None\<rparr>)),
          \<lparr>contacts = [john, mary\<lparr>phone := ''555-0199'', extra := None\<rparr>, zed], next_id = 4\<rparr>)
   \<and> update_contact demo_jwt demo_db 2 no_fields ''alice'' = (Inr (Some mary), demo_db)
   \<and> update_contact demo_jwt demo_db 3 demo_update ''alice'' = (Inr None, demo_db)"
proof -
  have m: "mary \<in> set (contacts demo_db) \<and> ident mary = 2 \<and> user_id mary = Some 1"
    by (simp add: demo_db_def mary_def)
  have z: "\<forall>r\<in>set (contacts demo_db). ident r = 3 \<longrightarrow> user_id r \<noteq> Some 1"
    by (simp add: demo_db_def john_def mary_def zed_def)
  note upd = update_applies_present_fields [OF authenticate_alice store_ok_demo_db]
  from upd [of mary 2 demo_update] m
  have same: "update_contact demo_jwt demo_db 2 no_fields ''alice'' = (Inr (Some mary), demo_db)"
    by blast
  from upd [of mary 3 demo_update] z
  have none: "update_contact demo_jwt demo_db 3 demo_update ''alice'' = (Inr None, demo_db)"
    by blast
  have "update_contact demo_jwt demo_db 2 demo_update ''alice''
       = (Inr (Some (mary\<lparr>phone := ''555-0199'', extra := None\<rparr>)),
          \<lparr>contacts = [john, mary\<lparr>phone := ''555-0199'', extra := None\<rparr>, zed], next_id = 4\<rparr>)"
    by (simp add: update_contact_def owned_row_def set_fields_def demo_update_def demo_db_def
        john_def mary_def zed_def Let_def)
  with same none store_ok_demo_db show ?thesis by simp
qed

section \<open>Delete\<close>

text \<open>
  C6. For a stored contact \<open>c\<close> with id \<open>cid\<close> owned by the requester, \<open>delete_contact\<close>
  returns \<open>True\<close> and removes exactly \<open>c\<close>; deleting the same id again returns \<open>False\<close>
  and changes nothing. When no contact with id \<open>cid\<close> is owned by the requester (no such id,
  or a contact of another user), it returns \<open>False\<close>, raises nothing, and the store is
  unchanged.
\<close>

theorem delete_reports_removal:
  assumes "authenticate jwt token = Inr uid" and "store_ok db"
  shows "(c \<in> set (contacts db) \<and> ident c = cid \<and> user_id c = uid \<longrightarrow>
      (\<exists>db'. delete_contact jwt db cid token = (Inr True, db')
        \<and> contacts db' = remove1 c (contacts db)
        \<and> c \<notin> set (contacts db')
        \<and> next_id db' = next_id db
        \<and> store_ok db'
        \<and> delete_contact jwt db' cid token = (Inr False, db')))
    \<and> ((\<forall>r\<in>set (contacts db). ident r = cid \<longrightarrow> user_id r \<noteq> uid) \<longrightarrow>
          delete_contact jwt db cid token = (Inr False, db))"
proof -
  from assms(2) have d: "distinct (map ident (contacts db))"
    and lt: "list_all (\<lambda>c. ident c < next_id db) (contacts db)"
    by (simp_all add: store_ok_def)
  have missing: "delete_contact jwt s cid token = (Inr False, s)"
    if "\<forall>r\<in>set (contacts s). ident r = cid \<longrightarrow> user_id r \<noteq> uid" for s
  proof -
    from that have "find (owned_row cid uid) (contacts s) = None"
      by (simp add: find_owned_row_None)
    then show ?thesis by (simp add: delete_contact_def assms(1))
  qed
  have found: "\<exists>db'. delete_contact jwt db cid token = (Inr True, db')
        \<and> contacts db' = remove1 c (contacts db)
        \<and> c \<notin> set (contacts db')
        \<and> next_id db' = next_id db
        \<and> store_ok db'
        \<and> delete_contact jwt db' cid token = (Inr False, db')"
    if c: "c \<in> set (contacts db)" "ident c = cid" "user_id c = uid"
  proof -
    define db' where "db' = db\<lparr>contacts := filter (\<lambda>r. ident r \<noteq> ident c) (contacts db)\<rparr>"
    have f: "find (owned_row cid uid) (contacts db) = Some c"
      using c by (simp add: find_owned_row_iff [OF d])
    have del: "delete_contact jwt db cid token = (Inr True, db')"
      by (simp add: delete_contact_def assms(1) f db'_def)
    have rows: "contacts db' = remove1 c (contacts db)"
      by (simp add: db'_def filter_ident_remove1 [OF d c(1)])
    have gone: "\<forall>r\<in>set (contacts db'). ident r \<noteq> cid"
      using c(2) by (simp add: db'_def)
    then have "c \<notin> set (contacts db')" using c(2) by blast
    moreover have "store_ok db'"
      using d lt by (auto simp: store_ok_def db'_def distinct_map_filter list_all_iff)
    moreover have "delete_contact jwt db' cid token = (Inr False, db')"
      by (rule missing) (use gone in blast)
    moreover have "next_id db' = next_id db" by (simp add: db'_def)
    ultimately show ?thesis using del rows by blast
  qed
  from found missing show ?thesis by blast
qed

theorem delete_reports_removal_witness:
  "authenticate demo_jwt ''alice'' = Inr (Some 1)
   \<and> store_ok demo_db
   \<and> delete_contact demo_jwt demo_db 1 ''alice'' = (Inr True, \<lparr>contacts = [mary, zed], next_id = 4\<rparr>)
   \<and> delete_contact demo_jwt \<lparr>contacts = [mary, zed], next_id = 4\<rparr> 1 ''alice''
       = (Inr False, \<lparr>contacts = [mary, zed], next_id = 4\<rparr>)
   \<and> delete_contact demo_jwt demo_db 3 ''alice'' = (Inr False, demo_db)
   \<and> delete_contact demo_jwt demo_db 99 ''alice'' = (Inr False, demo_db)"
proof -
  have j: "john \<in> set (contacts demo_db) \<and> ident john = 1 \<and> user_id john = Some 1"
    by (simp add: demo_db_def john_def)
  have z: "\<forall>r\<in>set (contacts demo_db). ident r = 3 \<longrightarrow> user_id r \<noteq> Some 1"
    by (simp add: demo_db_def john_def mary_def zed_def)
  have n: "\<forall>r\<in>set (contacts demo_db). ident r = 99 \<longrightarrow> user_id r \<noteq> Some 1"
    by (simp add: demo_db_def john_def mary_def zed_def)
  note del = delete_reports_removal [OF authenticate_alice store_ok_demo_db]
  have d1: "delete_contact demo_jwt demo_db 1 ''alice'' = (Inr True, \<lparr>contacts = [mary, zed], next_id = 4\<rparr>)"
    by (simp add: delete_contact_def owned_row_def demo_db_def john_def mary_def zed_def)
  from del [of john 1] j obtain db' where "delete_contact demo_jwt demo_db 1 ''alice'' = (Inr True, db')"
    and again: "delete_contact demo_jwt db' 1 ''alice'' = (Inr False, db')"
    by blast
  with d1 have "db' = \<lparr>contacts = [mary, zed], next_id = 4\<rparr>" by simp
  with again have d2: "delete_contact demo_jwt \<lparr>contacts = [mary, zed], next_id = 4\<rparr> 1 ''alice''
       = (Inr False, \<lparr>contacts = [mary, zed], next_id = 4\<rparr>)" by simp
  from del [of john 3] z have d3: "delete_contact demo_jwt demo_db 3 ''alice'' = (Inr False, demo_db)"
    by blast
  from del [of john 99] n have d4: "delete_contact demo_jwt demo_db 99 ''alice'' = (Inr False, demo_db)"
    by blast
  from d1 d2 d3 d4 store_ok_demo_db show ?thesis by simp
qed

section \<open>List\<close>

lemma insertion_ordered_store_ok: "insertion_ordered db \<Longrightarrow> store_ok db"
  by (simp add: insertion_ordered_def store_ok_def strict_sorted_iff)

lemma insertion_ordered_empty: "insertion_ordered \<lparr>contacts = [], next_id = 1\<rparr>"
  by (simp add: insertion_ordered_def)

lemma insertion_ordered_create:
  assumes "insertion_ordered db" "create_contact jwt db cc token = (r, db')"
  shows "insertion_ordered db'"
proof (cases "authenticate jwt token")
  case (Inl e)
  with assms show ?thesis by (simp add: create_contact_def)
next
  case (Inr uid)
  from assms(1) have s: "sorted_wrt (<) (map ident (contacts db))"
    and l: "\<forall>c\<in>set (contacts db). ident c < next_id db"
    by (simp_all add: insertion_ordered_def list_all_iff)
  from assms(2) obtain c where db': "contacts db' = contacts db @ [c]" "next_id db' = next_id db + 1"
    and c: "ident c = next_id db"
    by (auto simp: create_contact_result [OF Inr])
  from s l c have "sorted_wrt (<) (map ident (contacts db @ [c]))"
    by (simp add: sorted_wrt_append)
  moreover from l c have "\<forall>x\<in>set (contacts db @ [c]). ident x < next_id db + 1"
    by auto
  ultimately show ?thesis
    by (simp add: insertion_ordered_def db' list_all_iff)
qed

lemma update_contact_idents:
  assumes "update_contact jwt db cid u token = (r, db')"
  shows "map ident (contacts db') = map ident (contacts db) \<and> next_id db' = next_id db"
proof -
  have keep: "ident \<circ> (\<lambda>r. if ident r = ident c then set_fields u c else r) = ident" for c
    by (rule ext) simp
  from assms show ?thesis
    by (auto simp: update_contact_def Let_def keep split: sum.splits option.splits)
qed

lemma insertion_ordered_update:
  assumes "insertion_ordered db" "update_contact jwt db cid u token = (r, db')"
  shows "insertion_ordered db'"
proof -
  from update_contact_idents [OF assms(2)]
  have m: "map ident (contacts db') = map ident (contacts db)" and n: "next_id db' = next_id db"
    by simp_all
  have eq: "list_all (\<lambda>c. ident c < k) rows = list_all (\<lambda>i. i < k) (map ident rows)"
    for k and rows :: "contact list"
    by (simp add: list_all_iff)
  from assms(1) have "sorted_wrt (<) (map ident (contacts db'))"
    and "list_all (\<lambda>i. i < next_id db') (map ident (contacts db'))"
    unfolding m n by (simp_all add: insertion_ordered_def eq)
  then show ?thesis
    by (simp add: insertion_ordered_def eq)
qed

lemma delete_contact_rows:
  assumes "delete_contact jwt db cid token = (r, db')"
  shows "next_id db' = next_id db \<and>
     contacts db' = (if r = Inr True then filter (\<lambda>c. ident c \<noteq> cid) (contacts db) else contacts db)"
  using assms
  by (auto simp: delete_contact_def split: sum.splits option.splits dest: find_owned_row)

lemma insertion_ordered_delete:
  assumes "insertion_ordered db" "delete_contact jwt db cid token = (r, db')"
  shows "insertion_ordered db'"
proof -
  from delete_contact_rows [OF assms(2)]
  have rows: "contacts db' = contacts db \<or> contacts db' = filter (\<lambda>c. ident c \<noteq> cid) (contacts db)"
    and n: "next_id db' = next_id db"
    by (simp_all split: if_splits)
  from assms(1) have s: "sorted_wrt (\<lambda>a b. ident a < ident b) (contacts db)"
    and l: "\<forall>c\<in>set (contacts db). ident c < next_id db"
    by (simp_all add: insertion_ordered_def list_all_iff sorted_wrt_map)
  from s have "sorted_wrt (\<lambda>a b. ident a < ident b) (filter (\<lambda>c. ident c \<noteq> cid) (contacts db))"
    by (rule sorted_wrt_filter)
  with rows s l n show ?thesis
    by (auto simp: insertion_ordered_def list_all_iff sorted_wrt_map)
qed

lemma listing_ascending:
  assumes "insertion_ordered db"
  shows "sorted_wrt (\<lambda>a b. ident a < ident b) (take n (drop m (filter P (contacts db))))"
proof -
  from assms have "sorted_wrt (\<lambda>a b. ident a < ident b) (contacts db)"
    by (simp add: insertion_ordered_def sorted_wrt_map)
  then show ?thesis
    by (intro sorted_wrt_take sorted_wrt_drop sorted_wrt_filter)
qed

lemma update_keeps_listing:
  assumes "insertion_ordered db" "update_contact jwt db cid u t = (r, db')" "set_user_id u = None"
  shows "map ident (filter (\<lambda>c. user_id c = uid) (contacts db'))
       = map ident (filter (\<lambda>c. user_id c = uid) (contacts db))"
proof (cases "authenticate jwt t")
  case (Inl e)
  with assms(2) show ?thesis by (simp add: update_contact_def)
next
  case (Inr uid')
  show ?thesis
  proof (cases "find (owned_row cid uid') (contacts db)")
    case None
    with Inr assms(2) show ?thesis by (simp add: update_contact_def)
  next
    case (Some c)
    from assms(1) have d: "distinct (map ident (contacts db))"
      using insertion_ordered_store_ok store_ok_def by blast
    from Some have cin: "c \<in> set (contacts db)" by (simp add: find_owned_row)
    let ?f = "\<lambda>r. if ident r = ident c then set_fields u c else r"
    from Inr Some assms(2) have db': "contacts db' = map ?f (contacts db)"
      by (auto simp: update_contact_def Let_def)
    have same: "ident (?f x) = ident x \<and> user_id (?f x) = user_id x" if "x \<in> set (contacts db)" for x
    proof (cases "ident x = ident c")
      case True
      with d cin that have "x = c" by (auto simp: distinct_map inj_on_def)
      with assms(3) show ?thesis by (simp add: set_fields_def)
    next
      case False
      then show ?thesis by simp
    qed
    have "map ident (filter (\<lambda>c. user_id c = uid) (map ?f rows))
        = map ident (filter (\<lambda>c. user_id c = uid) rows)"
      if "\<forall>x\<in>set rows. ident (?f x) = ident x \<and> user_id (?f x) = user_id x" for rows
      using that by (induction rows) auto
    with same db' show ?thesis by simp
  qed
qed

lemma delete_keeps_listing:
  assumes "delete_contact jwt db cid t = (r, db')"
  shows "filter (\<lambda>c. user_id c = uid) (contacts db')
       = (if r = Inr True then filter (\<lambda>c. ident c \<noteq> cid) (filter (\<lambda>c. user_id c = uid) (contacts db))
          else filter (\<lambda>c. user_id c = uid) (contacts db))"
  using delete_contact_rows [OF assms] by (auto simp: conj_commute)

lemma no_list_within_negative_limit:
  "limit < 0 \<Longrightarrow> \<not> int (length (cs :: contact list)) \<le> limit"
  by simp

lemma insertion_ordered_demo_db: "insertion_ordered demo_db"
  by (simp add: insertion_ordered_def demo_db_def john_def mary_def zed_def)

text \<open>
  C8, as amended. For every \<open>skip\<close> and \<open>limit\<close> that are not negative, \<open>get_contacts\<close>
  returns the requester's contacts in the order of the table, without the first \<open>skip\<close> of
  them and at most \<open>limit\<close> of the rest; it returns the empty list when the requester owns
  none. The order is that of insertion and is stable. On a table in insertion order the
  result has strictly ascending generated ids. A contact the requester creates comes after
  all the requester had. An update moves no row, and leaves the ids of the requester's
  listing as they were when it sets no \<open>user_id\<close>. A delete removes the deleted row from the
  listing and keeps the others in their order. Create, update and delete keep the table in
  insertion order.
\<close>

theorem list_paginates_insertion_order:
  assumes "authenticate jwt token = Inr uid" and "0 \<le> skip" and "0 \<le> limit"
  shows "get_contacts jwt engine db skip limit token
       = Inr (take (nat limit) (drop (nat skip) (filter (\<lambda>c. user_id c = uid) (contacts db))))
    \<and> (\<forall>cs. get_contacts jwt engine db skip limit token = Inr cs \<longrightarrow> int (length cs) \<le> limit)
    \<and> (filter (\<lambda>c. user_id c = uid) (contacts db) = [] \<longrightarrow>
          get_contacts jwt engine db skip limit token = Inr [])
    \<and> (insertion_ordered db \<longrightarrow>
          (\<exists>cs. get_contacts jwt engine db skip limit token = Inr cs
             \<and> sorted_wrt (\<lambda>a b. ident a < ident b) cs))
    \<and> (\<forall>cc c db'. create_contact jwt db cc token = (Inr c, db') \<longrightarrow>
          filter (\<lambda>c. user_id c = uid) (contacts db')
            = filter (\<lambda>c. user_id c = uid) (contacts db) @ [c])
    \<and> (\<forall>t cc r db'. insertion_ordered db \<and> create_contact jwt db cc t = (r, db') \<longrightarrow>
          insertion_ordered db')
    \<and> (\<forall>t cid u r db'. insertion_ordered db \<and> update_contact jwt db cid u t = (r, db') \<longrightarrow>
          insertion_ordered db'
          \<and> map ident (contacts db') = map ident (contacts db)
          \<and> (set_user_id u = None \<longrightarrow>
               map ident (filter (\<lambda>c. user_id c = uid) (contacts db'))
                 = map ident (filter (\<lambda>c. user_id c = uid) (contacts db))))
    \<and> (\<forall>t cid r db'. insertion_ordered db \<and> delete_contact jwt db cid t = (r, db') \<longrightarrow>
          insertion_ordered db'
          \<and> filter (\<lambda>c. user_id c = uid) (contacts db')
              = (if r = Inr True
                 then filter (\<lambda>c. ident c \<noteq> cid) (filter (\<lambda>c. user_id c = uid) (contacts db))
                 else filter (\<lambda>c. user_id c = uid) (contacts db)))"
proof -
  have 1: "get_contacts jwt engine db skip limit token
       = Inr (take (nat limit) (drop (nat skip) (filter (\<lambda>c. user_id c = uid) (contacts db))))"
    using assms by (simp add: get_contacts_def offset_limit_def)
  have 2: "int (length cs) \<le> limit" if "get_contacts jwt engine db skip limit token = Inr cs" for cs
    using that assms(3) unfolding 1 by auto
  have 3: "get_contacts jwt engine db skip limit token = Inr []"
    if "filter (\<lambda>c. user_id c = uid) (contacts db) = []"
    using that by (simp add: 1)
  have 4: "\<exists>cs. get_contacts jwt engine db skip limit token = Inr cs
             \<and> sorted_wrt (\<lambda>a b. ident a < ident b) cs" if "insertion_ordered db"
    using listing_ascending [OF that] by (simp add: 1)
  have 5: "filter (\<lambda>c. user_id c = uid) (contacts db')
            = filter (\<lambda>c. user_id c = uid) (contacts db) @ [c]"
    if "create_contact jwt db cc token = (Inr c, db')" for cc c db'
    using that by (auto simp: create_contact_result [OF assms(1)])
  note 6 = insertion_ordered_create
  note 7 = insertion_ordered_update update_contact_idents update_keeps_listing
  note 8 = insertion_ordered_delete delete_keeps_listing
  show ?thesis
    apply (intro conjI allI impI)
    subgoal by (rule 1)
    subgoal by (rule 2)
    subgoal by (rule 3)
    subgoal by (rule 4)
    subgoal by (rule 5)
    subgoal by (elim conjE) (rule 6)
    subgoal by (elim conjE) (rule 7(1))
    subgoal by (elim conjE) (simp add: 7(2))
    subgoal by (elim conjE) (rule 7(3))
    subgoal by (elim conjE) (rule 8(1))
    subgoal by (elim conjE) (rule 8(2))
    done
qed


theorem list_paginates_insertion_order_witness:
  "authenticate demo_jwt ''alice'' = Inr (Some 1)
   \<and> (0::int) \<le> 1
   \<and> insertion_ordered demo_db
   \<and> get_contacts demo_jwt no_engine demo_db 1 1 ''alice'' = Inr [mary]
   \<and> get_contacts demo_jwt no_engine demo_db 0 100 ''alice'' = Inr [john, mary]
   \<and> get_contacts demo_jwt no_engine demo_db_ann 0 100 ''alice'' = Inr [john, mary, ann]
   \<and> get_contacts demo_jwt no_engine \<lparr>contacts = [zed], next_id = 4\<rparr> 0 100 ''alice'' = Inr []
   \<and> get_contacts demo_jwt sqlite_engine demo_db 1 1 ''alice'' = Inr [mary]"
proof -
  have a: "get_contacts demo_jwt no_engine demo_db 1 1 ''alice'' = Inr [mary]"
    using list_paginates_insertion_order [OF authenticate_alice, of 1 1 no_engine demo_db]
    by (simp add: demo_db_def john_def mary_def zed_def)
  have b: "get_contacts demo_jwt no_engine demo_db 0 100 ''alice'' = Inr [john, mary]"
    using list_paginates_insertion_order [OF authenticate_alice, of 0 100 no_engine demo_db]
    by (simp add: demo_db_def john_def mary_def zed_def)
  have c: "get_contacts demo_jwt no_engine demo_db_ann 0 100 ''alice'' = Inr [john, mary, ann]"
    using list_paginates_insertion_order [OF authenticate_alice, of 0 100 no_engine demo_db_ann]
    by (simp add: demo_db_ann_def john_def mary_def zed_def ann_def)
  have d: "get_contacts demo_jwt no_engine \<lparr>contacts = [zed], next_id = 4\<rparr> 0 100 ''alice'' = Inr []"
    using list_paginates_insertion_order [OF authenticate_alice, of 0 100 no_engine "\<lparr>contacts = [zed], next_id = 4\<rparr>"]
    by (simp add: zed_def)
  have e: "get_contacts demo_jwt sqlite_engine demo_db 1 1 ''alice'' = Inr [mary]"
    using list_paginates_insertion_order [OF authenticate_alice, of 1 1 sqlite_engine demo_db]
    by (simp add: demo_db_def john_def mary_def zed_def)
  from a b c d e insertion_ordered_demo_db show ?thesis by simp
qed

text \<open>
  The claim as stated, for every pair \<open>(skip, limit)\<close>, fails at \<open>limit = -1\<close>: the route
  passes the integers of the request to \<open>offset\<close> and \<open>limit\<close> unchecked, and on an engine
  that reads a negative limit as no limit the call returns both contacts of \<open>alice\<close>, which
  is not at most \<open>-1\<close> rows. No list at all has at most \<open>-1\<close> rows, whatever the engine
  (\<open>no_list_within_negative_limit\<close>).
\<close>

theorem list_negative_limit_counterexample:
  "get_contacts demo_jwt sqlite_engine demo_db 0 (- 1) ''alice'' = Inr [john, mary]
   \<and> \<not> int (length [john, mary]) \<le> - 1"
  by (simp add: get_contacts_def offset_limit_def sqlite_engine_def demo_db_def john_def mary_def
      zed_def)

section \<open>Search\<close>

lemma like_literal:
  "wildcard_free p \<Longrightarrow> like s p \<longleftrightarrow> s = p"
proof (induction p arbitrary: s)
  case Nil
  then show ?case by (cases s) simp_all
next
  case (Cons a p)
  then have "wildcard_free p" "a \<noteq> CHR ''%''" "a \<noteq> CHR ''_''"
    by (auto simp: wildcard_free_def)
  with Cons.IH show ?case by (cases s) auto
qed

lemma like_percent [simp]: "like s ''%''"
  by (induction s) simp_all

lemma like_prefix:
  "wildcard_free p \<Longrightarrow> like s (p @ ''%'') \<longleftrightarrow> prefix p s"
proof (induction p arbitrary: s)
  case Nil
  then show ?case by simp
next
  case (Cons a p)
  then have "wildcard_free p" "a \<noteq> CHR ''%''" "a \<noteq> CHR ''_''"
    by (auto simp: wildcard_free_def)
  with Cons.IH show ?case by (cases s) auto
qed

lemma like_percent_front:
  "like s (CHR ''%'' # ps) \<longleftrightarrow> (\<exists>t. suffix t s \<and> like t ps)"
proof (induction s)
  case Nil
  then show ?case by simp
next
  case (Cons c cs)
  then show ?case by (auto simp: suffix_Cons)
qed

lemma like_contains:
  assumes "wildcard_free q"
  shows "like s (''%'' @ q @ ''%'') \<longleftrightarrow> sublist q s"
proof -
  have "like s (''%'' @ q @ ''%'') \<longleftrightarrow> (\<exists>t. suffix t s \<and> prefix q t)"
    using like_prefix [OF assms] by (simp add: like_percent_front)
  then show ?thesis by (simp add: sublist_altdef')
qed

lemma lower_char_percent [simp]: "lower_char c = CHR ''%'' \<longleftrightarrow> c = CHR ''%''"
  by (simp add: lower_char_def)

lemma lower_char_underscore [simp]: "lower_char c = CHR ''_'' \<longleftrightarrow> c = CHR ''_''"
  by (simp add: lower_char_def)

lemma wildcard_free_lower: "wildcard_free (lower q) = wildcard_free q"
proof -
  have "CHR ''%'' \<in> lower_char ` set q \<longleftrightarrow> CHR ''%'' \<in> set q"
    by (metis (no_types, lifting) image_iff lower_char_percent)
  moreover have "CHR ''_'' \<in> lower_char ` set q \<longleftrightarrow> CHR ''_'' \<in> set q"
    by (metis (no_types, lifting) image_iff lower_char_underscore)
  ultimately show ?thesis by (simp add: wildcard_free_def lower_def)
qed

lemma lower_pattern: "lower (''%'' @ q @ ''%'') = ''%'' @ lower q @ ''%''"
  by (simp add: lower_def lower_char_def)

lemma ilike_contains:
  assumes "wildcard_free q"
  shows "ilike s (''%'' @ q @ ''%'') \<longleftrightarrow> ci_substring q s"
  unfolding ilike_def lower_pattern ci_substring_def
  by (rule like_contains) (simp add: wildcard_free_lower assms)

lemma search_row_literal:
  assumes "wildcard_free q"
  shows "search_row q uid = (\<lambda>c. user_id c = uid \<and> matches_literally q c)"
  by (rule ext) (simp add: search_row_def matches_literally_def ilike_contains [OF assms] del: append.simps)

lemma search_j_hn: "search_contacts demo_jwt demo_db ''j_hn'' ''alice'' = Inr [john, mary]"
  by (simp add: search_contacts_def search_row_def ilike_def lower_def lower_char_def
      demo_db_def john_def mary_def zed_def)

lemma john_not_j_hn: "\<not> matches_literally ''j_hn'' john"
  by (simp add: matches_literally_def ci_substring_def lower_def lower_char_def john_def
      sublist_code prefix_code)

lemma mary_not_j_hn: "\<not> matches_literally ''j_hn'' mary"
  by (simp add: matches_literally_def ci_substring_def lower_def lower_char_def mary_def
      sublist_code prefix_code)

lemma john_not_percent: "\<not> matches_literally ''%'' john"
  by (simp add: matches_literally_def ci_substring_def lower_def lower_char_def john_def
      sublist_code prefix_code)

lemma matches_jo: "matches_literally ''jo'' john \<and> matches_literally ''jo'' mary"
  by (simp add: matches_literally_def ci_substring_def lower_def lower_char_def john_def mary_def
      sublist_code prefix_code)

lemma search_row_percent: "search_row ''%'' uid c \<longleftrightarrow> user_id c = uid"
proof -
  have skip: "like s ps \<Longrightarrow> like s (CHR ''%'' # ps)" for s ps
    unfolding like_percent_front by (meson suffix_order.refl)
  have "like s ''%%%''" for s
    by (intro skip like_percent)
  then show ?thesis
    by (simp add: search_row_def ilike_def lower_def lower_char_def)
qed

text \<open>
  C7, as amended. For every query that contains neither \<open>%\<close> nor \<open>_\<close>,
  \<open>search_contacts\<close> returns exactly the requester's contacts for which the query occurs
  as a case-insensitive substring of the first name, the last name or the email, in the
  order of the table; with the empty query it returns all of the requester's contacts.
\<close>

theorem search_literal_substring:
  assumes "authenticate jwt token = Inr uid" and "wildcard_free q"
  shows "search_contacts jwt db q token
       = Inr (filter (\<lambda>c. user_id c = uid \<and> matches_literally q c) (contacts db))
     \<and> search_contacts jwt db [] token = Inr (filter (\<lambda>c. user_id c = uid) (contacts db))"
proof -
  have e: "wildcard_free []" by (simp add: wildcard_free_def)
  have "matches_literally [] c" for c
    by (simp add: matches_literally_def ci_substring_def lower_def)
  then show ?thesis
    by (simp add: search_contacts_def assms(1) search_row_literal [OF assms(2)]
      search_row_literal [OF e])
qed


theorem search_literal_substring_witness:
  "authenticate demo_jwt ''alice'' = Inr (Some 1)
   \<and> wildcard_free ''jo''
   \<and> search_contacts demo_jwt demo_db ''jo'' ''alice'' = Inr [john, mary]
   \<and> search_contacts demo_jwt demo_db [] ''alice'' = Inr [john, mary]"
proof -
  have w: "wildcard_free ''jo''" by (simp add: wildcard_free_def)
  have "search_contacts demo_jwt demo_db ''jo'' ''alice'' = Inr [john, mary]
      \<and> search_contacts demo_jwt demo_db [] ''alice'' = Inr [john, mary]"
    using search_literal_substring [OF authenticate_alice w, of demo_db] matches_jo
    by (simp add: demo_db_def) (simp add: john_def mary_def zed_def)
  with w show ?thesis by simp
qed

text \<open>
  The claim as stated, for every query, fails at the query \<open>j_hn\<close>: both contacts of
  \<open>alice\<close> are returned and neither contains \<open>j_hn\<close> in any of the three fields.
\<close>

theorem search_literal_counterexample:
  "search_contacts demo_jwt demo_db ''j_hn'' ''alice'' = Inr [john, mary]
   \<and> filter (\<lambda>c. user_id c = Some 1 \<and> matches_literally ''j_hn'' c) (contacts demo_db) = []"
  using john_not_j_hn mary_not_j_hn
  by (simp add: search_j_hn) (simp add: demo_db_def zed_def)

text \<open>
  C10. \<open>%\<close> and \<open>_\<close> in the query are pattern characters: the query \<open>%\<close> returns
  every contact of the requester, whatever its fields, and in the example store the
  queries \<open>%\<close> and \<open>j_hn\<close> return \<open>john\<close>, none of whose first name, last name and
  email contains the query as a substring.
\<close>

theorem search_wildcards:
  "(authenticate jwt token = Inr uid \<longrightarrow>
      search_contacts jwt db ''%'' token = Inr (filter (\<lambda>c. user_id c = uid) (contacts db)))
   \<and> search_contacts demo_jwt demo_db ''%'' ''alice'' = Inr [john, mary]
   \<and> \<not> matches_literally ''%'' john
   \<and> search_contacts demo_jwt demo_db ''j_hn'' ''alice'' = Inr [john, mary]
   \<and> \<not> matches_literally ''j_hn'' john"
proof -
  have all: "search_contacts jwt db ''%'' token = Inr (filter (\<lambda>c. user_id c = uid) (contacts db))"
    if "authenticate jwt token = Inr uid" for jwt db token uid
    using that by (simp add: search_contacts_def search_row_percent cong: filter_cong)
  have "search_contacts demo_jwt demo_db ''%'' ''alice'' = Inr [john, mary]"
    by (simp add: all [OF authenticate_alice]) (simp add: demo_db_def john_def mary_def zed_def)
  with all search_j_hn john_not_j_hn john_not_percent show ?thesis by blast
qed

theorem search_wildcards_witness:
  "authenticate demo_jwt ''bob'' = Inr (Some 2)
   \<and> search_contacts demo_jwt demo_db ''%'' ''bob'' = Inr [zed]"
  using search_wildcards [of demo_jwt "''bob''" "Some 2" demo_db]
  by (simp add: demo_db_def john_def mary_def zed_def)

section \<open>Upcoming birthdays\<close>

lemma date_replace_year_error: "date_replace_year b y = Inl e \<Longrightarrow> e = ValueError"
  by (auto simp: date_replace_year_def split: if_splits)

lemma reanchor_error: "reanchor today b = Inl e \<Longrightarrow> e = ValueError"
  by (auto simp: reanchor_def split: sum.splits if_splits dest: date_replace_year_error)

lemma birthdays_loop_step:
  "birthdays_loop today next_week (c # cs) upcoming =
     (case reanchor today (birthday c) of
        Inl e \<Rightarrow> Inl e
      | Inr d \<Rightarrow>
          birthdays_loop today next_week cs
            (if birthday_upcoming today next_week (birthday c) then upcoming @ [c] else upcoming))"
  by (simp add: reanchor_def birthday_upcoming_def split: sum.splits)

lemma birthdays_loop_ok:
  assumes "\<forall>c\<in>set cs. \<exists>d. reanchor today (birthday c) = Inr d"
  shows "birthdays_loop today next_week cs upcoming
       = Inr (upcoming @ filter (\<lambda>c. birthday_upcoming today next_week (birthday c)) cs)"
  using assms
proof (induction cs arbitrary: upcoming)
  case Nil
  then show ?case by simp
next
  case (Cons c cs)
  then obtain d where "reanchor today (birthday c) = Inr d" by auto
  with Cons show ?case by (simp add: birthdays_loop_step del: birthdays_loop.simps)
qed

lemma birthdays_loop_raises:
  assumes "c \<in> set cs" "reanchor today (birthday c) = Inl e"
  shows "birthdays_loop today next_week cs upcoming = Inl ValueError"
  using assms
proof (induction cs arbitrary: upcoming)
  case Nil
  then show ?case by simp
next
  case (Cons r cs)
  show ?case
  proof (cases "reanchor today (birthday r)")
    case (Inl e')
    then show ?thesis
      by (simp add: birthdays_loop_step reanchor_error del: birthdays_loop.simps)
  next
    case (Inr d)
    with Cons.prems have "c \<in> set cs" by auto
    with Cons.IH Cons.prems(2) Inr show ?thesis
      by (simp add: birthdays_loop_step del: birthdays_loop.simps)
  qed
qed

lemma upcoming_birthdays_window:
  assumes "authenticate jwt token = Inr uid"
    and "date_add_days today 7 = Inr next_week"
    and "\<forall>c\<in>set (contacts db). user_id c = uid \<longrightarrow> (\<exists>d. reanchor today (birthday c) = Inr d)"
  shows "get_upcoming_birthdays jwt today db token
       = Inr (filter (\<lambda>c. user_id c = uid \<and> birthday_upcoming today next_week (birthday c))
               (contacts db))"
proof -
  have "\<forall>c\<in>set (filter (\<lambda>c. user_id c = uid) (contacts db)). \<exists>d. reanchor today (birthday c) = Inr d"
    using assms(3) by simp
  from birthdays_loop_ok [OF this, of next_week "[]"] show ?thesis
    by (simp add: get_upcoming_birthdays_def assms(1,2) conj_commute)
qed

lemma leap_year_next: "is_leap y \<Longrightarrow> \<not> is_leap (Suc y)"
  unfolding is_leap_def by presburger

lemma reanchor_leap_day:
  assumes "month b = 2" "day b = 29" "valid_date today"
    and "\<not> is_leap (year today) \<or> 3 \<le> month today"
  shows "reanchor today b = Inl ValueError"
proof (cases "is_leap (year today)")
  case False
  with assms(1,2) show ?thesis
    by (simp add: reanchor_def date_replace_year_def days_in_month_def)
next
  case True
  with assms(4) have m: "3 \<le> month today" by simp
  from assms(3) have y: "MINYEAR \<le> year today" "year today \<le> MAXYEAR"
    by (simp_all add: valid_date_def)
  from True have "\<not> is_leap (Suc (year today))" by (rule leap_year_next)
  with True m y assms(1,2) show ?thesis
    by (simp add: reanchor_def date_replace_year_def days_in_month_def date_less_def)
qed

lemma week_from_2024_06_25:
  "date_add_days \<lparr>year = 2024, month = 6, day = 25\<rparr> 7 = Inr \<lparr>year = 2024, month = 7, day = 2\<rparr>"
  by (simp add: date_eval)

lemma week_from_2024_12_28:
  "date_add_days \<lparr>year = 2024, month = 12, day = 28\<rparr> 7 = Inr \<lparr>year = 2025, month = 1, day = 4\<rparr>"
  by (simp add: date_eval)

lemma week_from_2025_06_25:
  "date_add_days \<lparr>year = 2025, month = 6, day = 25\<rparr> 7 = Inr \<lparr>year = 2025, month = 7, day = 2\<rparr>"
  by (simp add: date_eval)

lemma week_from_2024_03_05:
  "date_add_days \<lparr>year = 2024, month = 3, day = 5\<rparr> 7 = Inr \<lparr>year = 2024, month = 3, day = 12\<rparr>"
  by (simp add: date_eval)

lemma birthday_06_28_included:
  "birthday_upcoming \<lparr>year = 2024, month = 6, day = 25\<rparr> \<lparr>year = 2024, month = 7, day = 2\<rparr>
     \<lparr>year = y, month = 6, day = 28\<rparr>"
  by (simp add: birthday_upcoming_def reanchor_def date_eval)

lemma birthday_12_30_excluded:
  "\<not> birthday_upcoming \<lparr>year = 2024, month = 6, day = 25\<rparr> \<lparr>year = 2024, month = 7, day = 2\<rparr>
     \<lparr>year = y, month = 12, day = 30\<rparr>"
  by (simp add: birthday_upcoming_def reanchor_def date_eval)

lemma birthday_01_01_wraps:
  "reanchor \<lparr>year = 2024, month = 12, day = 28\<rparr> \<lparr>year = y, month = 1, day = 1\<rparr>
     = Inr \<lparr>year = 2025, month = 1, day = 1\<rparr>"
  "birthday_upcoming \<lparr>year = 2024, month = 12, day = 28\<rparr> \<lparr>year = 2025, month = 1, day = 4\<rparr>
     \<lparr>year = y, month = 1, day = 1\<rparr>"
  by (simp_all add: birthday_upcoming_def reanchor_def date_eval)

lemma upcoming_2024_06_25:
  "get_upcoming_birthdays demo_jwt \<lparr>year = 2024, month = 6, day = 25\<rparr> demo_db ''alice'' = Inr [john]"
proof -
  have "\<forall>c\<in>set (contacts demo_db). user_id c = Some 1 \<longrightarrow>
      (\<exists>d. reanchor \<lparr>year = 2024, month = 6, day = 25\<rparr> (birthday c) = Inr d)"
    by (simp add: demo_db_def john_def mary_def zed_def reanchor_def date_eval)
  from upcoming_birthdays_window [OF authenticate_alice week_from_2024_06_25 this]
  show ?thesis
    using birthday_06_28_included [of 1990] birthday_12_30_excluded [of 1985]
    by (simp add: demo_db_def john_def mary_def zed_def)
qed

text \<open>
  C2. The window test of the loop is the one the claim describes (\<open>upcoming_birthdays_window\<close>,
  and the three dated examples above), but only when every birthday of the requester can be
  re-anchored. In the store below the requester owns \<open>john\<close>, whose birthday 28 June lies in
  the window of 25 June 2025, and a contact born on 29 February: the call raises
  \<open>ValueError\<close> and returns no list, so \<open>john\<close> is not included.
\<close>

theorem upcoming_birthdays_leap_day_failure:
  "john \<in> set (contacts demo_db_leap) \<and> user_id john = Some 1
   \<and> date_add_days \<lparr>year = 2025, month = 6, day = 25\<rparr> 7 = Inr \<lparr>year = 2025, month = 7, day = 2\<rparr>
   \<and> birthday_upcoming \<lparr>year = 2025, month = 6, day = 25\<rparr> \<lparr>year = 2025, month = 7, day = 2\<rparr>
        (birthday john)
   \<and> list_all (\<lambda>c. valid_date (birthday c)) (contacts demo_db_leap)
   \<and> get_upcoming_birthdays demo_jwt \<lparr>year = 2025, month = 6, day = 25\<rparr> demo_db_leap ''alice''
       = Inl ValueError"
proof -
  let ?today = "\<lparr>year = 2025, month = 6, day = 25\<rparr>"
  have "reanchor ?today (birthday leapling) = Inl ValueError"
    by (simp add: leapling_def reanchor_def date_eval)
  moreover have "leapling \<in> set (filter (\<lambda>c. user_id c = Some 1) (contacts demo_db_leap))"
    by (simp add: demo_db_leap_def leapling_def)
  ultimately have "birthdays_loop ?today \<lparr>year = 2025, month = 7, day = 2\<rparr>
      (filter (\<lambda>c. user_id c = Some 1) (contacts demo_db_leap)) [] = Inl ValueError"
    by (rule birthdays_loop_raises [rotated])
  then have "get_upcoming_birthdays demo_jwt ?today demo_db_leap ''alice'' = Inl ValueError"
    by (simp add: get_upcoming_birthdays_def week_from_2025_06_25)
  moreover have "birthday_upcoming ?today \<lparr>year = 2025, month = 7, day = 2\<rparr> (birthday john)"
    by (simp add: john_def birthday_upcoming_def reanchor_def date_eval)
  moreover have "list_all (\<lambda>c. valid_date (birthday c)) (contacts demo_db_leap)"
    by (simp add: demo_db_leap_def john_def mary_def zed_def leapling_def valid_date_def date_eval)
  ultimately show ?thesis
    by (simp add: week_from_2025_06_25) (simp add: demo_db_leap_def john_def)
qed

text \<open>
  C9. \<open>get_upcoming_birthdays\<close> is not total on valid birthdays: when the requester owns a
  contact born on 29 February and today lies in a common year, or in a leap year from
  March on (the birthday of this year has passed and the next year is a common year),
  re-anchoring raises \<open>ValueError\<close> and the call returns no list.
\<close>

theorem leap_day_birthday_raises:
  assumes "authenticate jwt token = Inr uid"
    and "date_add_days today 7 = Inr next_week"
    and "valid_date today"
    and "\<not> is_leap (year today) \<or> 3 \<le> month today"
    and "c \<in> set (contacts db)" and "user_id c = uid"
    and "valid_date (birthday c)"
    and "month (birthday c) = 2" and "day (birthday c) = 29"
  shows "get_upcoming_birthdays jwt today db token = Inl ValueError"
proof -
  have "reanchor today (birthday c) = Inl ValueError"
    using assms(8,9,3,4) by (rule reanchor_leap_day)
  moreover have "c \<in> set (filter (\<lambda>c. user_id c = uid) (contacts db))"
    using assms(5,6) by simp
  ultimately have "birthdays_loop today next_week (filter (\<lambda>c. user_id c = uid) (contacts db)) []
      = Inl ValueError"
    by (rule birthdays_loop_raises [rotated])
  then show ?thesis by (simp add: get_upcoming_birthdays_def assms(1,2))
qed


theorem leap_day_birthday_raises_witness:
  "authenticate demo_jwt ''alice'' = Inr (Some 1)
   \<and> leapling \<in> set (contacts demo_db_leap) \<and> user_id leapling = Some 1
   \<and> valid_date (birthday leapling)
   \<and> valid_date \<lparr>year = 2025, month = 6, day = 25\<rparr> \<and> \<not> is_leap 2025
   \<and> get_upcoming_birthdays demo_jwt \<lparr>year = 2025, month = 6, day = 25\<rparr> demo_db_leap ''alice''
       = Inl ValueError
   \<and> valid_date \<lparr>year = 2024, month = 3, day = 5\<rparr> \<and> is_leap 2024
   \<and> get_upcoming_birthdays demo_jwt \<lparr>year = 2024, month = 3, day = 5\<rparr> demo_db_leap ''alice''
       = Inl ValueError"
proof -
  have c: "leapling \<in> set (contacts demo_db_leap)" "user_id leapling = Some 1"
    "valid_date (birthday leapling)" "month (birthday leapling) = 2" "day (birthday leapling) = 29"
    by (simp_all add: demo_db_leap_def leapling_def valid_date_def date_eval)
  have t1: "valid_date \<lparr>year = 2025, month = 6, day = 25\<rparr>"
    "\<not> is_leap (year \<lparr>year = 2025, month = 6, day = 25\<rparr>) \<or> 3 \<le> month \<lparr>year = 2025, month = 6, day = 25\<rparr>"
    by (simp_all add: valid_date_def date_eval)
  have t2: "valid_date \<lparr>year = 2024, month = 3, day = 5\<rparr>"
    "\<not> is_leap (year \<lparr>year = 2024, month = 3, day = 5\<rparr>) \<or> 3 \<le> month \<lparr>year = 2024, month = 3, day = 5\<rparr>"
    by (simp_all add: valid_date_def date_eval)
  have l: "\<not> is_leap 2025" "is_leap 2024" by (simp_all add: is_leap_def)
  note r1 = leap_day_birthday_raises [OF authenticate_alice week_from_2025_06_25 t1 c(1,2,3,4,5)]
  note r2 = leap_day_birthday_raises [OF authenticate_alice week_from_2024_03_05 t2 c(1,2,3,4,5)]
  from r1 r2 c t1(1) t2(1) l show ?thesis by simp
qed

end
